theory Spec2Isabelle
  imports Complex_Main "HOL-Library.Word" "HOL-Library.AList"
begin

unbundle bit_operations_syntax

section \<open>Python values of \<^verbatim>\<open>pycanlib/CAN.py\<close>\<close>

text \<open>
  \<^verbatim>\<open>pycanlib/CAN.py\<close> is Python 2 and checks the class of what it is given with
  \<^verbatim>\<open>isinstance\<close>, so the values carry their class: \<^verbatim>\<open>int\<close> (a \<^verbatim>\<open>bool\<close> is an \<^verbatim>\<open>int\<close>, 0 or 1),
  \<^verbatim>\<open>long\<close>, \<^verbatim>\<open>float\<close>, \<^verbatim>\<open>str\<close>, \<^verbatim>\<open>None\<close> and \<^verbatim>\<open>list\<close>. A float is a real number, one of the two
  infinities or NaN; only its comparison with zero is used, and rounding plays no part.
\<close>

datatype pyfloat = Finite real | PosInf | NegInf | NaN

datatype pyval =
    PyInt int
  | PyLong int
  | PyFloat pyfloat
  | PyStr string
  | PyNone
  | PyList "pyval list"

text \<open>\<^verbatim>\<open>v.__class__.__name__\<close>, \<^verbatim>\<open>isinstance(v, types.IntType)\<close> and \<^verbatim>\<open>isinstance(v, types.FloatType)\<close>.\<close>

definition class_name :: "pyval \<Rightarrow> string" where
  "class_name v =
     (case v of PyInt _ \<Rightarrow> ''int'' | PyLong _ \<Rightarrow> ''long'' | PyFloat _ \<Rightarrow> ''float''
      | PyStr _ \<Rightarrow> ''str'' | PyNone \<Rightarrow> ''NoneType'' | PyList _ \<Rightarrow> ''list'')"

definition is_IntType :: "pyval \<Rightarrow> bool" where
  "is_IntType v = (case v of PyInt _ \<Rightarrow> True | _ \<Rightarrow> False)"

definition is_FloatType :: "pyval \<Rightarrow> bool" where
  "is_FloatType v = (case v of PyFloat _ \<Rightarrow> True | _ \<Rightarrow> False)"

text \<open>
  \<^verbatim>\<open>v < 0\<close> for a float or an int (every comparison with NaN is false), and
  \<^verbatim>\<open>v in range(lo, hi)\<close> for an int.
\<close>

definition lt_zero :: "pyval \<Rightarrow> bool" where
  "lt_zero v =
     (case v of PyInt n \<Rightarrow> n < 0 | PyFloat (Finite r) \<Rightarrow> r < 0 | PyFloat NegInf \<Rightarrow> True
      | _ \<Rightarrow> False)"

definition in_range :: "pyval \<Rightarrow> int \<Rightarrow> int \<Rightarrow> bool" where
  "in_range v lo hi = (case v of PyInt n \<Rightarrow> lo \<le> n \<and> n < hi | _ \<Rightarrow> False)"

text \<open>The text \<^verbatim>\<open>'%s'\<close> of a format string: the argument between two apostrophes.\<close>

definition quoted :: "string \<Rightarrow> string" where
  "quoted s = [CHR 0x27] @ s @ [CHR 0x27]"

section \<open>Messages of \<^verbatim>\<open>pycanlib/CAN.py\<close>\<close>

text \<open>
  The exceptions of the module. \<^verbatim>\<open>InvalidParameterError.__init__\<close> stores
  \<^verbatim>\<open>parameter_name\<close>, \<^verbatim>\<open>parameter_value\<close> and \<^verbatim>\<open>reason\<close>, the three arguments of the two
  subclasses here. \<open>PyTypeError\<close> and \<open>PyAttributeError\<close> are the interpreter's own.
\<close>

datatype pycanlib_error =
    InvalidMessageParameterError string pyval string
  | InvalidBusParameterError string pyval string
  | PyTypeError
  | PyAttributeError
  | CANLIBError int

text \<open>Class \<^verbatim>\<open>Message\<close>, a \<^verbatim>\<open>LogMessage\<close> with four more attributes.\<close>

record Message =
  timestamp :: pyval
  device_id :: pyval
  payload :: pyval
  dlc :: pyval
  flags :: pyval

text \<open>\<^verbatim>\<open>LogMessage.__init__\<close>; the result is the timestamp it stores.\<close>

definition LogMessage_init :: "pyval \<Rightarrow> pycanlib_error + pyval" where
  "LogMessage_init ts =
     (if \<not> (is_FloatType ts \<or> is_IntType ts)
      then Inl (InvalidMessageParameterError ''timestamp'' ts
                  (''expected float or int; received '' @ quoted (class_name ts)))
      else if lt_zero ts
      then Inl (InvalidMessageParameterError ''timestamp'' ts ''timestamp value must be positive'')
      else Inr ts)"

text \<open>
  \<^verbatim>\<open>len(payload)\<close> and the items of \<^verbatim>\<open>for item in payload\<close>. A value with no length makes
  \<^verbatim>\<open>len\<close> raise TypeError, here \<open>None\<close>.
\<close>

definition py_len :: "pyval \<Rightarrow> nat option" where
  "py_len v = (case v of PyList xs \<Rightarrow> Some (length xs) | PyStr s \<Rightarrow> Some (length s) | _ \<Rightarrow> None)"

definition py_iter :: "pyval \<Rightarrow> pyval list" where
  "py_iter v = (case v of PyList xs \<Rightarrow> xs | PyStr s \<Rightarrow> map (\<lambda>c. PyStr [c]) s | _ \<Rightarrow> [])"

text \<open>The loop over the payload: the first item that fails a check raises.\<close>

fun check_payload_items :: "pyval \<Rightarrow> pyval list \<Rightarrow> pycanlib_error option" where
  "check_payload_items p [] = None"
| "check_payload_items p (item # rest) =
     (if \<not> is_IntType item
      then Some (InvalidMessageParameterError ''payload'' p
                   (''payload array must contain only integers; found '' @ quoted (class_name item)))
      else if \<not> in_range item 0 (2 ^ 8)
      then Some (InvalidMessageParameterError ''payload'' p
                   ''payload array element values must be in range [0, 2**8-1]'')
      else check_payload_items p rest)"

text \<open>
  \<^verbatim>\<open>Message.__init__(self, device_id, payload, dlc, flags, timestamp)\<close>, the checks in
  the order of the source.
\<close>

definition Message_init ::
    "pyval \<Rightarrow> pyval \<Rightarrow> pyval \<Rightarrow> pyval \<Rightarrow> pyval \<Rightarrow> pycanlib_error + Message" where
  "Message_init device_id0 payload0 dlc0 flags0 timestamp0 =
     (let payload1 = (if payload0 = PyNone then PyList [] else payload0)
      in case LogMessage_init timestamp0 of
           Inl e \<Rightarrow> Inl e
         | Inr ts \<Rightarrow>
             if \<not> is_IntType device_id0
             then Inl (InvalidMessageParameterError ''device_id'' device_id0
                         (''expected int; received '' @ quoted (class_name device_id0)))
             else if \<not> in_range device_id0 0 (2 ^ 11)
             then Inl (InvalidMessageParameterError ''device_id'' device_id0
                         ''device_id must be in range [0, 2**11-1]'')
             else (case py_len payload1 of
                     None \<Rightarrow> Inl PyTypeError
                   | Some n \<Rightarrow>
                       if \<not> n < 9
                       then Inl (InvalidMessageParameterError ''payload'' payload1
                                   ''payload array length must be in range [0, 8]'')
                       else (case check_payload_items payload1 (py_iter payload1) of
                               Some e \<Rightarrow> Inl e
                             | None \<Rightarrow>
                                 if \<not> is_IntType dlc0
                                 then Inl (InvalidMessageParameterError ''dlc'' dlc0
                                             (''expected int; received '' @ class_name dlc0))
                                 else if \<not> in_range dlc0 0 9
                                 then Inl (InvalidMessageParameterError ''dlc'' dlc0
                                             ''DLC value must be in range [0, 8]'')
                                 else if \<not> is_IntType flags0
                                 then Inl (InvalidMessageParameterError ''flags'' flags0
                                             (''expected int; received '' @ class_name flags0))
                                 else if \<not> in_range flags0 0 (2 ^ 16)
                                 then Inl (InvalidMessageParameterError ''flags'' flags0
                                             ''flags value must be in range [0, 2**16-1]'')
                                 else Inr \<lparr>timestamp = ts, device_id = device_id0,
                                           payload = payload1, dlc = dlc0, flags = flags0\<rparr>)))"

text \<open>
  The ranges the constructor is documented with: a timestamp of at least zero, the
  timestamps it refuses (not a float or an int, or below zero), an int between two bounds,
  and a payload that is \<^verbatim>\<open>None\<close> or a list of at most eight ints from 0 to 255.
\<close>

definition timestamp_in_range :: "pyval \<Rightarrow> bool" where
  "timestamp_in_range v =
     (case v of PyInt n \<Rightarrow> 0 \<le> n | PyFloat (Finite r) \<Rightarrow> 0 \<le> r | PyFloat PosInf \<Rightarrow> True
      | _ \<Rightarrow> False)"

definition timestamp_rejected :: "pyval \<Rightarrow> bool" where
  "timestamp_rejected v =
     (case v of PyInt n \<Rightarrow> n < 0 | PyFloat (Finite r) \<Rightarrow> r < 0 | PyFloat NegInf \<Rightarrow> True
      | PyFloat _ \<Rightarrow> False | _ \<Rightarrow> True)"

definition int_between :: "int \<Rightarrow> int \<Rightarrow> pyval \<Rightarrow> bool" where
  "int_between lo hi v = (case v of PyInt n \<Rightarrow> lo \<le> n \<and> n \<le> hi | _ \<Rightarrow> False)"

definition payload_in_range :: "pyval \<Rightarrow> bool" where
  "payload_in_range p =
     (case p of PyList xs \<Rightarrow> length xs \<le> 8 \<and> list_all (int_between 0 255) xs
      | PyNone \<Rightarrow> True | _ \<Rightarrow> False)"

definition payload_is_list :: "pyval \<Rightarrow> bool" where
  "payload_is_list p = (case p of PyList _ \<Rightarrow> True | PyNone \<Rightarrow> True | _ \<Rightarrow> False)"

text \<open>What the constructor stores for a payload: the empty list for \<^verbatim>\<open>None\<close>.\<close>

definition stored_payload :: "pyval \<Rightarrow> pyval" where
  "stored_payload p = (if p = PyNone then PyList [] else p)"

section \<open>Channel handles and buses of \<^verbatim>\<open>pycanlib/CAN.py\<close>\<close>

text \<open>
  Modelled from the spec: the driver binding \<^verbatim>\<open>pycanlib.canlib\<close> and the constants of
  \<^verbatim>\<open>pycanlib.canstat\<close> are not among the sources. The operations of the spec's native-driver
  capability surface that \<^verbatim>\<open>_Handle\<close>, \<^verbatim>\<open>_get_handle\<close> and \<^verbatim>\<open>Bus\<close> call are the fields of a record,
  functions over a driver state \<open>'d\<close> of any type. \<open>canOpenChannel\<close> returns the new handle
  number, or the error code of the \<^verbatim>\<open>CANLIBError\<close> it raises.
\<close>

datatype callback = RX_CALLBACK | TX_CALLBACK

record busparams =
  speed :: int
  tseg1 :: int
  tseg2 :: int
  sjw :: int
  no_samp :: int

record 'd canlib =
  canGetNumberOfChannels :: "'d \<Rightarrow> int"
  FLAGS_MASK :: int
  canERR_NOTFOUND :: int
  canOpenChannel :: "int \<Rightarrow> int \<Rightarrow> 'd \<Rightarrow> (int + int) \<times> 'd"
  canFlushReceiveQueue :: "int \<Rightarrow> 'd \<Rightarrow> 'd"
  canFlushTransmitQueue :: "int \<Rightarrow> 'd \<Rightarrow> 'd"
  canIoCtl_SET_TIMER_SCALE :: "int \<Rightarrow> int \<Rightarrow> 'd \<Rightarrow> 'd"
  canBusOn :: "int \<Rightarrow> 'd \<Rightarrow> 'd"
  canBusOff :: "int \<Rightarrow> 'd \<Rightarrow> 'd"
  kvSetNotifyCallback :: "int \<Rightarrow> callback \<Rightarrow> 'd \<Rightarrow> 'd"
  canGetBusParams :: "int \<Rightarrow> 'd \<Rightarrow> busparams"
  canSetBusParams :: "int \<Rightarrow> busparams \<Rightarrow> 'd \<Rightarrow> 'd"
  canSetDriverMode :: "int \<Rightarrow> int \<Rightarrow> 'd \<Rightarrow> 'd"
  canReadTimer :: "int \<Rightarrow> 'd \<Rightarrow> int"
  canDRIVER_SILENT :: int

text \<open>
  The attributes of a \<^verbatim>\<open>_Handle\<close> and of a \<^verbatim>\<open>Bus\<close>. Objects are shared and mutated, so they
  live in a store: \<open>heap\<close> holds the \<^verbatim>\<open>_Handle\<close> objects and \<open>buses\<close> the \<^verbatim>\<open>Bus\<close> objects, a
  reference to an object is its index, and a new object goes to the end. The two module
  dictionaries map a driver handle number to a reference; they are association lists in
  iteration order.
\<close>

record Handle =
  channel :: int
  flags :: int
  canlib_handle :: int
  listeners :: "nat list"
  tx_queue :: "Message list"
  reading :: bool
  writing :: bool
  receive_callback_enabled :: bool
  transmit_callback_enabled :: bool

record Bus =
  name :: string
  read_handle :: nat
  write_handle :: nat
  driver_mode :: int
  rx_queue :: "Message list"
  timer_offset :: int

record 'd world =
  heap :: "Handle list"
  READ_HANDLE_REGISTRY :: "(int \<times> nat) list"
  WRITE_HANDLE_REGISTRY :: "(int \<times> nat) list"
  buses :: "Bus list"
  driver :: 'd

text \<open>
  The argument \<^verbatim>\<open>registry\<close> of \<^verbatim>\<open>_get_handle\<close> is one of the two module dictionaries.
  \<open>dict_eq\<close> is \<^verbatim>\<open>==\<close> on dictionaries: the same keys with the same objects.
\<close>

datatype registry_ref = READ | WRITE

definition registry_of :: "registry_ref \<Rightarrow> 'd world \<Rightarrow> (int \<times> nat) list" where
  "registry_of r w = (case r of READ \<Rightarrow> READ_HANDLE_REGISTRY w | WRITE \<Rightarrow> WRITE_HANDLE_REGISTRY w)"

definition set_registry :: "registry_ref \<Rightarrow> (int \<times> nat) list \<Rightarrow> 'd world \<Rightarrow> 'd world" where
  "set_registry r reg w =
     (case r of READ \<Rightarrow> w\<lparr>READ_HANDLE_REGISTRY := reg\<rparr> | WRITE \<Rightarrow> w\<lparr>WRITE_HANDLE_REGISTRY := reg\<rparr>)"

definition dict_eq :: "(int \<times> nat) list \<Rightarrow> (int \<times> nat) list \<Rightarrow> bool" where
  "dict_eq a b = (set a = set b)"

text \<open>The format \<^verbatim>\<open>%d\<close>.\<close>

fun to_dec :: "nat \<Rightarrow> string" where
  "to_dec n = (if n < 10 then [''0123456789'' ! n] else to_dec (n div 10) @ [''0123456789'' ! (n mod 10)])"

declare to_dec.simps [simp del]

definition format_d :: "int \<Rightarrow> string" where
  "format_d n = (if n < 0 then CHR ''-'' # to_dec (nat (- n)) else to_dec (nat n))"

text \<open>
  \<^verbatim>\<open>_Handle.__init__\<close>: the new object and the driver state, or the exception raised.
  \<^verbatim>\<open>MICROSECONDS_PER_TIMER_TICK\<close> is 1.
\<close>

definition Handle_init :: "'d canlib \<Rightarrow> int \<Rightarrow> int \<Rightarrow> 'd \<Rightarrow> pycanlib_error + Handle \<times> 'd" where
  "Handle_init lib chan flgs d =
     (let num_channels = canGetNumberOfChannels lib d
      in if \<not> (0 \<le> chan \<and> chan < num_channels)
         then Inl (InvalidBusParameterError ''channel'' (PyInt chan)
                     (''available channels on this system are in the range [0, '' @
                      format_d num_channels @ '']''))
         else if flgs AND (0xFFFF - FLAGS_MASK lib) \<noteq> 0
         then Inl (InvalidBusParameterError ''flags'' (PyInt flgs)
                     ''must contain only the canOPEN_* flags listed in canlib.py'')
         else (case canOpenChannel lib chan flgs d of
                 (Inl error_code, d1) \<Rightarrow>
                   if error_code = canERR_NOTFOUND lib
                   then Inl (InvalidBusParameterError ''flags'' (PyInt flgs)
                               ''no hardware is available that has all these capabilities'')
                   else Inl (CANLIBError error_code)
               | (Inr h, d1) \<Rightarrow>
                   let d2 = canFlushReceiveQueue lib h d1;
                       d3 = canFlushTransmitQueue lib h d2;
                       d4 = canIoCtl_SET_TIMER_SCALE lib h 1 d3;
                       d5 = canBusOn lib h d4
                   in Inr (\<lparr>channel = chan, flags = flgs, canlib_handle = h, listeners = [],
                            tx_queue = [], reading = False, writing = False,
                            receive_callback_enabled = True,
                            transmit_callback_enabled = True\<rparr>, d5)))"

text \<open>
  The loop of \<^verbatim>\<open>_get_handle\<close> over \<^verbatim>\<open>registry.keys()\<close>: \<open>visit\<close> is its body, on the pair
  \<^verbatim>\<open>(_found_handle, handle)\<close>; the keys of a dictionary are distinct, so the loop runs once
  for each entry.
\<close>

definition visit :: "Handle list \<Rightarrow> int \<Rightarrow> int \<Rightarrow> bool \<times> nat option \<Rightarrow> int \<times> nat \<Rightarrow> bool \<times> nat option" where
  "visit hp channel_number flgs acc entry =
     (case acc of (found_handle, handle) \<Rightarrow>
        (case entry of (key, ref) \<Rightarrow>
           if channel (hp ! ref) = channel_number \<and> Handle.flags (hp ! ref) = flgs
           then (True, Some ref) else (found_handle, handle)))"

definition scan_registry ::
    "Handle list \<Rightarrow> int \<Rightarrow> int \<Rightarrow> (int \<times> nat) list \<Rightarrow> bool \<times> nat option" where
  "scan_registry hp channel_number flgs registry =
     foldl (visit hp channel_number flgs) (False, None) registry"

text \<open>
  \<^verbatim>\<open>_get_handle(channel_number, flags, registry)\<close>: the reference returned and the new
  store, or the exception raised.
\<close>

definition get_handle ::
    "'d canlib \<Rightarrow> int \<Rightarrow> int \<Rightarrow> registry_ref \<Rightarrow> 'd world \<Rightarrow> pycanlib_error + nat \<times> 'd world" where
  "get_handle lib channel_number flgs r w =
     (case scan_registry (heap w) channel_number flgs (registry_of r w) of
        (found_handle, handle) \<Rightarrow>
          (case (if \<not> found_handle
                 then (case Handle_init lib channel_number flgs (driver w) of
                         Inl e \<Rightarrow> Inl e
                       | Inr (obj, d1) \<Rightarrow>
                           let ref = length (heap w);
                               w1 = w\<lparr>heap := heap w @ [obj], driver := d1\<rparr>
                           in Inr (Some ref,
                                   set_registry r
                                     (AList.update (canlib_handle obj) ref (registry_of r w1)) w1))
                 else Inr (handle, w))
           of
             Inl e \<Rightarrow> Inl e
           | Inr (None, w2) \<Rightarrow> Inl PyAttributeError
           | Inr (Some ref, w2) \<Rightarrow>
               let h = canlib_handle (heap w2 ! ref)
               in Inr (ref, w2\<lparr>driver :=
                              (if dict_eq (registry_of r w2) (READ_HANDLE_REGISTRY w2)
                               then kvSetNotifyCallback lib h RX_CALLBACK (driver w2)
                               else kvSetNotifyCallback lib h TX_CALLBACK (driver w2))\<rparr>)))"

text \<open>
  \<^verbatim>\<open>Bus.__init__\<close>. \<open>program_bus\<close> is the block that reads the bus parameters of a handle
  and reprograms them when they differ, and \<open>program_handles\<close> the two such blocks with the
  driver mode, the second one skipped in silent mode. The new bus is its own listener on
  the read handle.
\<close>

definition program_bus :: "'d canlib \<Rightarrow> int \<Rightarrow> busparams \<Rightarrow> 'd \<Rightarrow> 'd" where
  "program_bus lib h p d =
     (let old = canGetBusParams lib h d
      in if speed p \<noteq> speed old \<or> tseg1 p \<noteq> tseg1 old \<or> tseg2 p \<noteq> tseg2 old \<or>
            sjw p \<noteq> sjw old \<or> no_samp p \<noteq> no_samp old
         then canBusOn lib h (canSetBusParams lib h p (canBusOff lib h d))
         else d)"

definition program_handles :: "'d canlib \<Rightarrow> int \<Rightarrow> int \<Rightarrow> busparams \<Rightarrow> int \<Rightarrow> 'd \<Rightarrow> 'd" where
  "program_handles lib hr hw p mode d =
     (let d1 = canSetDriverMode lib hr mode (program_bus lib hr p d)
      in if mode \<noteq> canDRIVER_SILENT lib
         then canSetDriverMode lib hw mode (program_bus lib hw p d1)
         else d1)"

definition Bus_init ::
    "'d canlib \<Rightarrow> int \<Rightarrow> int \<Rightarrow> busparams \<Rightarrow> int \<Rightarrow> string \<Rightarrow> 'd world \<Rightarrow>
     pycanlib_error + nat \<times> 'd world" where
  "Bus_init lib chan flgs p mode nm w =
     (case get_handle lib chan flgs READ w of
        Inl e \<Rightarrow> Inl e
      | Inr (rh, w1) \<Rightarrow>
          (case get_handle lib chan flgs WRITE w1 of
             Inl e \<Rightarrow> Inl e
           | Inr (wh, w2) \<Rightarrow>
               let hr = canlib_handle (heap w2 ! rh);
                   hw = canlib_handle (heap w2 ! wh);
                   d2 = program_handles lib hr hw p mode (driver w2);
                   self = length (buses w2);
                   bus = \<lparr>name = nm, read_handle = rh, write_handle = wh, driver_mode = mode,
                          rx_queue = [], timer_offset = canReadTimer lib hr d2\<rparr>;
                   obj = heap w2 ! rh
               in Inr (self,
                       w2\<lparr>heap := (heap w2)[rh := obj\<lparr>listeners := listeners obj @ [self]\<rparr>],
                          buses := buses w2 @ [bus], driver := d2\<rparr>)))"

text \<open>
  The stores the module can reach: every reference in a dictionary is to an object of the
  heap, and the keys of a dictionary are distinct. \<open>matches\<close> is the test of the loop.
\<close>

definition wf_registry :: "Handle list \<Rightarrow> (int \<times> nat) list \<Rightarrow> bool" where
  "wf_registry hp reg = (list_all (\<lambda>(key, ref). ref < length hp) reg \<and> distinct (map fst reg))"

definition wf_world :: "'d world \<Rightarrow> bool" where
  "wf_world w =
     (wf_registry (heap w) (READ_HANDLE_REGISTRY w) \<and> wf_registry (heap w) (WRITE_HANDLE_REGISTRY w))"

definition matches :: "Handle list \<Rightarrow> int \<Rightarrow> int \<Rightarrow> nat \<Rightarrow> bool" where
  "matches hp ch fl ref = (channel (hp ! ref) = ch \<and> Handle.flags (hp ! ref) = fl)"

text \<open>
  A driver to run the model on: two channels, every flag allowed, handle numbers handed
  out in order, and nothing else kept.
\<close>

definition sim_canlib :: "nat canlib" where
  "sim_canlib =
     \<lparr>canGetNumberOfChannels = (\<lambda>d. 2),
      FLAGS_MASK = 0xFFFF,
      canERR_NOTFOUND = - 31,
      canOpenChannel = (\<lambda>chan flgs d. (Inr (int d), Suc d)),
      canFlushReceiveQueue = (\<lambda>h d. d),
      canFlushTransmitQueue = (\<lambda>h d. d),
      canIoCtl_SET_TIMER_SCALE = (\<lambda>h res d. d),
      canBusOn = (\<lambda>h d. d),
      canBusOff = (\<lambda>h d. d),
      kvSetNotifyCallback = (\<lambda>h cb d. d),
      canGetBusParams = (\<lambda>h d. \<lparr>speed = 1000000, tseg1 = 1, tseg2 = 0, sjw = 1, no_samp = 1\<rparr>),
      canSetBusParams = (\<lambda>h p d. d),
      canSetDriverMode = (\<lambda>h m d. d),
      canReadTimer = (\<lambda>h d. 0),
      canDRIVER_SILENT = 1\<rparr>"

definition empty_world :: "nat world" where
  "empty_world =
     \<lparr>heap = [], READ_HANDLE_REGISTRY = [], WRITE_HANDLE_REGISTRY = [], buses = [], driver = 0\<rparr>"

definition default_params :: busparams where
  "default_params = \<lparr>speed = 1000000, tseg1 = 1, tseg2 = 0, sjw = 1, no_samp = 1\<rparr>"

section \<open>The bus base class and the listeners of \<^verbatim>\<open>can/\<close>\<close>

text \<open>
  The exceptions of the interpreter and its library that \<^verbatim>\<open>can/\<close> meets, and the
  invalid-parameter error of the message class, which names the field it refuses.
\<close>

datatype exn =
  ValueError | IndexError | TypeError | TimeoutError | Empty | Full | InvalidParameter string

text \<open>
  \<^verbatim>\<open>queue.Queue(maxsize)\<close>: a FIFO that is unbounded when \<open>maxsize\<close> is not positive.
  \<^verbatim>\<open>put_nowait\<close> raises Full only on a bounded queue that is full.
\<close>

record 'a Queue =
  maxsize :: int
  items :: "'a list"

definition Queue_init :: "int \<Rightarrow> 'a Queue" where
  "Queue_init n = \<lparr>maxsize = n, items = []\<rparr>"

definition Queue_empty :: "'a Queue \<Rightarrow> bool" where
  "Queue_empty q = (items q = [])"

definition put_nowait :: "'a \<Rightarrow> 'a Queue \<Rightarrow> exn + 'a Queue" where
  "put_nowait x q =
     (if 0 < maxsize q \<and> maxsize q \<le> int (length (items q)) then Inl Full
      else Inr (q\<lparr>items := items q @ [x]\<rparr>))"

text \<open>
  \<^verbatim>\<open>get(timeout=t)\<close> returns the head at once when there is one. On an empty queue it
  waits, and what it returns depends on the other threads: \<open>Arrives d x\<close> says that \<open>x\<close> is
  put \<open>d\<close> seconds after the call, \<open>Never\<close> that nothing is. The third component of the
  result is the time the caller was blocked, in seconds.
\<close>

datatype 'a arrival = Never | Arrives real 'a

definition get_timeout :: "real \<Rightarrow> 'a Queue \<Rightarrow> 'a arrival \<Rightarrow> (exn + 'a) \<times> 'a Queue \<times> real" where
  "get_timeout timeout q env =
     (if timeout < 0 then (Inl ValueError, q, 0)
      else case items q of
             x # xs \<Rightarrow> (Inr x, q\<lparr>items := xs\<rparr>, 0)
           | [] \<Rightarrow>
               (case env of
                  Arrives delay x \<Rightarrow>
                    if delay < timeout then (Inr x, q, max 0 delay) else (Inl Empty, q, timeout)
                | Never \<Rightarrow> (Inl Empty, q, timeout)))"

text \<open>
  \<^verbatim>\<open>BusABC\<close> of \<^verbatim>\<open>can/bus.py\<close>. The event \<^verbatim>\<open>_threads_running\<close> is its flag, a listener is
  a reference, a queued message may be \<^verbatim>\<open>None\<close>, and \<open>backend\<close> is the state on which the
  abstract method \<^verbatim>\<open>_put_message\<close> of the subclass acts. The constructor also starts two
  threads; the functions here are the methods, each run on its own.
\<close>

record ('m, 'b) BusABC =
  listeners :: "nat list"
  tx_queue :: "'m option Queue"
  threads_running :: bool
  backend :: 'b

definition BusABC_init :: "'b \<Rightarrow> ('m, 'b) BusABC" where
  "BusABC_init b = \<lparr>listeners = [], tx_queue = Queue_init 0, threads_running = True, backend = b\<rparr>"

text \<open>\<^verbatim>\<open>BusABC.write\<close> (\<open>write\<close> is a keyword of Isabelle).\<close>

definition BusABC_write :: "'m option \<Rightarrow> ('m, 'b) BusABC \<Rightarrow> exn + ('m, 'b) BusABC" where
  "BusABC_write msg self =
     (case put_nowait msg (tx_queue self) of
        Inl e \<Rightarrow> Inl e
      | Inr q \<Rightarrow> Inr (self\<lparr>tx_queue := q\<rparr>))"

text \<open>
  \<^verbatim>\<open>BusABC.tx_thread\<close>. \<open>tx_thread_body\<close> is the body of its loop with the two branches
  guarded by \<^verbatim>\<open>False and self.single_handle\<close> left out: it takes every message from the
  queue and passes those that are not \<^verbatim>\<open>None\<close> to \<^verbatim>\<open>_put_message\<close>. The loop itself may
  run for ever, so \<open>tx_thread\<close> returns \<open>None\<close> when it does not return.
\<close>

fun drain :: "('m \<Rightarrow> 'b \<Rightarrow> 'b) \<Rightarrow> 'm option list \<Rightarrow> 'b \<Rightarrow> 'b" where
  "drain put_message [] b = b"
| "drain put_message (tx_msg # rest) b =
     drain put_message rest (case tx_msg of None \<Rightarrow> b | Some m \<Rightarrow> put_message m b)"

definition tx_thread_body :: "('m \<Rightarrow> 'b \<Rightarrow> 'b) \<Rightarrow> ('m, 'b) BusABC \<Rightarrow> ('m, 'b) BusABC" where
  "tx_thread_body put_message self =
     self\<lparr>tx_queue := (tx_queue self)\<lparr>items := []\<rparr>,
          backend := drain put_message (items (tx_queue self)) (backend self)\<rparr>"

partial_function (option) tx_thread ::
    "('m \<Rightarrow> 'b \<Rightarrow> 'b) \<Rightarrow> ('m, 'b) BusABC \<Rightarrow> ('m, 'b) BusABC option" where
  "tx_thread put_message self =
     (if False \<and> threads_running self
      then tx_thread put_message (tx_thread_body put_message self)
      else Some self)"

text \<open>\<^verbatim>\<open>BusABC.shutdown\<close>.\<close>

definition shutdown :: "('m, 'b) BusABC \<Rightarrow> ('m, 'b) BusABC" where
  "shutdown self = self\<lparr>threads_running := False\<rparr>"

text \<open>
  \<^verbatim>\<open>BufferedReader\<close> of \<^verbatim>\<open>can/CAN.py\<close>. \<^verbatim>\<open>def get_message(self)\<close> binds no argument but
  \<^verbatim>\<open>self\<close>: \<open>args\<close> are the further arguments of a call, and a call that has any raises
  TypeError before the body runs.
\<close>

record 'm BufferedReader =
  buffer :: "'m Queue"

definition BufferedReader_init :: "'m BufferedReader" where
  "BufferedReader_init = \<lparr>buffer = Queue_init 0\<rparr>"

definition on_message_received :: "'m \<Rightarrow> 'm BufferedReader \<Rightarrow> exn + 'm BufferedReader" where
  "on_message_received msg self =
     (case put_nowait msg (buffer self) of
        Inl e \<Rightarrow> Inl e
      | Inr q \<Rightarrow> Inr (self\<lparr>buffer := q\<rparr>))"

definition get_message ::
    "real list \<Rightarrow> 'm BufferedReader \<Rightarrow> 'm arrival \<Rightarrow> (exn + 'm option) \<times> 'm BufferedReader \<times> real" where
  "get_message args self env =
     (if args \<noteq> [] then (Inl TypeError, self, 0)
      else case get_timeout 0.5 (buffer self) env of
             (Inr m, q, elapsed) \<Rightarrow> (Inr (Some m), self\<lparr>buffer := q\<rparr>, elapsed)
           | (Inl e, q, elapsed) \<Rightarrow>
               if e = Empty then (Inr None, self\<lparr>buffer := q\<rparr>, elapsed)
               else (Inl e, self\<lparr>buffer := q\<rparr>, elapsed))"

section \<open>Python built-ins used by the daemon codec\<close>

text \<open>
  The codec of \<^verbatim>\<open>can/interfaces/socketcand_bus.py\<close> is written with string methods and
  conversions of the Python standard library. They are modelled on ASCII strings (the
  receive path decodes the socket bytes with \<^verbatim>\<open>decode("ascii")\<close>), each with the failure
  it raises made a value.
\<close>

type_synonym byte = "8 word"

text \<open>\<^verbatim>\<open>s.startswith(p)\<close>, \<^verbatim>\<open>s.endswith(p)\<close>, \<^verbatim>\<open>s.removeprefix(p)\<close>, \<^verbatim>\<open>s.removesuffix(p)\<close>.\<close>

definition startswith :: "string \<Rightarrow> string \<Rightarrow> bool" where
  "startswith s p = (take (length p) s = p)"

definition endswith :: "string \<Rightarrow> string \<Rightarrow> bool" where
  "endswith s p = (length p \<le> length s \<and> drop (length s - length p) s = p)"

definition removeprefix :: "string \<Rightarrow> string \<Rightarrow> string" where
  "removeprefix s p = (if startswith s p then drop (length p) s else s)"

definition removesuffix :: "string \<Rightarrow> string \<Rightarrow> string" where
  "removesuffix s p = (if p \<noteq> [] \<and> endswith s p then take (length s - length p) s else s)"

text \<open>
  \<^verbatim>\<open>s.split(sep, maxsplit)\<close> for a one-character separator: at most \<open>maxsplit\<close> cuts,
  from the left; the remainder is the last element, separators included.
\<close>

fun str_split :: "char \<Rightarrow> nat \<Rightarrow> string \<Rightarrow> string list" where
  "str_split c 0 s = [s]"
| "str_split c (Suc n) s =
     (if c \<in> set s
      then takeWhile (\<lambda>x. x \<noteq> c) s # str_split c n (tl (dropWhile (\<lambda>x. x \<noteq> c) s))
      else [s])"

text \<open>\<^verbatim>\<open>sep.join(xs)\<close>.\<close>

fun str_join :: "string \<Rightarrow> string list \<Rightarrow> string" where
  "str_join sep [] = []"
| "str_join sep [x] = x"
| "str_join sep (x # y # ys) = x @ sep @ str_join sep (y # ys)"

text \<open>
  \<^verbatim>\<open>xs[0:n]\<close>: a negative stop counts from the end, and the slice is clipped to the
  sequence, so it never raises.
\<close>

definition slice_to :: "'a list \<Rightarrow> int \<Rightarrow> 'a list" where
  "slice_to xs n = (if n < 0 then take (nat (int (length xs) + n)) xs else take (nat n) xs)"

text \<open>
  The format specifications \<^verbatim>\<open>X\<close> and \<^verbatim>\<open>x\<close> of an integer: base 16, most significant
  digit first, no prefix and no padding, a minus sign before the digits of a negative value.
\<close>

definition digit_upper :: "nat \<Rightarrow> char" where
  "digit_upper d = ''0123456789ABCDEF'' ! d"

definition digit_lower :: "nat \<Rightarrow> char" where
  "digit_lower d = ''0123456789abcdef'' ! d"

fun to_hex :: "(nat \<Rightarrow> char) \<Rightarrow> nat \<Rightarrow> string" where
  "to_hex dg n = (if n < 16 then [dg n] else to_hex dg (n div 16) @ [dg (n mod 16)])"

declare to_hex.simps [simp del]

definition format_hex :: "(nat \<Rightarrow> char) \<Rightarrow> int \<Rightarrow> string" where
  "format_hex dg n = (if n < 0 then CHR ''-'' # to_hex dg (nat (- n)) else to_hex dg (nat n))"

definition format_X :: "int \<Rightarrow> string" where
  "format_X n = format_hex digit_upper n"

definition format_x :: "int \<Rightarrow> string" where
  "format_x n = format_hex digit_lower n"

text \<open>
  The digit table of the interpreter (\<^verbatim>\<open>_PyLong_DigitValue\<close>): \<^verbatim>\<open>0-9\<close>, then the
  letters of either case from 10 on, and 37 for every other character.
\<close>

definition digit_value :: "char \<Rightarrow> nat" where
  "digit_value c =
     (let k = (of_char c :: nat)
      in if 48 \<le> k \<and> k \<le> 57 then k - 48
         else if 97 \<le> k \<and> k \<le> 122 then k - 87
         else if 65 \<le> k \<and> k \<le> 90 then k - 55
         else 37)"

definition py_isspace :: "char \<Rightarrow> bool" where
  "py_isspace c = ((of_char c :: nat) \<in> {9, 10, 11, 12, 13, 32})"

definition int_body_char :: "char \<Rightarrow> bool" where
  "int_body_char c = (digit_value c < 16 \<or> c = CHR ''_'')"

fun double_underscore :: "string \<Rightarrow> bool" where
  "double_underscore (a # b # r) = ((a = CHR ''_'' \<and> b = CHR ''_'') \<or> double_underscore (b # r))"
| "double_underscore _ = False"

text \<open>
  \<^verbatim>\<open>int(s, 16)\<close>: white space around the literal is skipped, then an optional sign, an
  optional \<^verbatim>\<open>0x\<close> or \<^verbatim>\<open>0X\<close> (one underscore may follow it), then hexadecimal digits
  with single underscores between them. Anything else raises ValueError, here \<open>None\<close>.
\<close>

definition strip_sign :: "string \<Rightarrow> bool \<times> string" where
  "strip_sign s =
     (case s of
        [] \<Rightarrow> (False, s)
      | c # r \<Rightarrow> if c = CHR ''-'' then (True, r) else if c = CHR ''+'' then (False, r) else (False, s))"

definition strip_0x :: "string \<Rightarrow> string" where
  "strip_0x s =
     (case s of
        c # x # r \<Rightarrow>
          if c = CHR ''0'' \<and> (x = CHR ''x'' \<or> x = CHR ''X'')
          then (case r of [] \<Rightarrow> r | u # r' \<Rightarrow> if u = CHR ''_'' then r' else r)
          else s
      | _ \<Rightarrow> s)"

definition digits16 :: "string \<Rightarrow> nat option" where
  "digits16 s =
     (let body = takeWhile int_body_char s;
          rest = dropWhile int_body_char s
      in if body = [] \<or> hd body = CHR ''_'' \<or> last body = CHR ''_'' \<or> double_underscore body
            \<or> dropWhile py_isspace rest \<noteq> []
         then None
         else Some (foldl (\<lambda>a c. 16 * a + digit_value c) 0
                      (filter (\<lambda>c. c \<noteq> CHR ''_'') body)))"

definition int16 :: "string \<Rightarrow> int option" where
  "int16 s =
     (case strip_sign (dropWhile py_isspace s) of
        (neg, s2) \<Rightarrow>
          map_option (\<lambda>v. if neg then - int v else int v) (digits16 (strip_0x s2)))"

text \<open>
  \<^verbatim>\<open>bytearray.fromhex(s)\<close>: two hexadecimal digits per byte; white space is skipped
  between bytes, not inside one. Anything else raises ValueError, here \<open>None\<close>.
\<close>

fun fromhex :: "string \<Rightarrow> byte list option" where
  "fromhex [] = Some []"
| "fromhex [c] = (if py_isspace c then Some [] else None)"
| "fromhex (c # d # r) =
     (if py_isspace c then fromhex (d # r)
      else if digit_value c < 16 \<and> digit_value d < 16
           then map_option ((#) (of_nat (16 * digit_value c + digit_value d))) (fromhex r)
           else None)"

section \<open>The daemon codec\<close>

text \<open>
  Modelled from the spec: the class \<^verbatim>\<open>can.Message\<close> is not among the sources. The record
  holds the fields of the spec's Frame that the codec reads and writes; the payload is a
  bytearray, a list of bytes. The type \<open>'f\<close> is that of float values, which the codec only
  passes on.
\<close>

record 'f can_message =
  timestamp :: 'f
  arbitration_id :: int
  data :: "byte list"
  dlc :: int

text \<open>
  Modelled from the spec: the constructor \<^verbatim>\<open>can.Message(timestamp, arbitration_id, data, dlc)\<close>
  validates its arguments and raises on those it refuses; when it succeeds, the stored
  fields are the arguments. Which arguments the class refuses is not in the sources, so the
  check is the parameter \<open>validate\<close>: it gives the exception raised, or \<open>None\<close> for
  arguments that are accepted.
\<close>

type_synonym 'f validator = "'f \<Rightarrow> int \<Rightarrow> byte list \<Rightarrow> int \<Rightarrow> exn option"

definition can_Message ::
    "'f validator \<Rightarrow> 'f \<Rightarrow> int \<Rightarrow> byte list \<Rightarrow> int \<Rightarrow> exn + 'f can_message" where
  "can_Message validate ts can_id bs len =
     (case validate ts can_id bs len of
        Some e \<Rightarrow> Inl e
      | None \<Rightarrow> Inr \<lparr>timestamp = ts, arbitration_id = can_id, data = bs, dlc = len\<rparr>)"

text \<open>
  \<^verbatim>\<open>convert_ascii_message_to_can_message\<close>. The conversion \<^verbatim>\<open>float(s)\<close> is a parameter:
  \<open>None\<close> stands for its ValueError. The result is \<open>Inl e\<close> when the function raises \<open>e\<close>,
  \<open>Inr None\<close> when it returns \<^verbatim>\<open>None\<close>, and \<open>Inr (Some m)\<close> when it returns a message. The
  two elements of the tuple are evaluated from left to right, and \<^verbatim>\<open>parts[0]\<close> always
  exists. The last step constructs the message, and raises what the constructor raises. The
  warning written to the log is not part of the result.
\<close>

definition convert_ascii_message_to_can_message ::
    "'f validator \<Rightarrow> (string \<Rightarrow> 'f option) \<Rightarrow> string \<Rightarrow> exn + 'f can_message option" where
  "convert_ascii_message_to_can_message validate float ascii_message =
     (if \<not> startswith ascii_message ''< frame '' \<or> \<not> endswith ascii_message '' >''
      then Inr None
      else
        let frame_string = removesuffix (removeprefix ascii_message ''< frame '') '' >'';
            parts = str_split (CHR '' '') 3 frame_string
        in (case int16 (parts ! 0) of
              None \<Rightarrow> Inl ValueError
            | Some can_id \<Rightarrow>
                if length parts \<le> 1 then Inl IndexError
                else (case float (parts ! 1) of
                        None \<Rightarrow> Inl ValueError
                      | Some ts \<Rightarrow>
                          if length parts \<le> 2 then Inl IndexError
                          else (case fromhex (parts ! 2) of
                                  None \<Rightarrow> Inl ValueError
                                | Some bs \<Rightarrow>
                                    (case can_Message validate ts can_id bs (int (length bs)) of
                                       Inl e \<Rightarrow> Inl e
                                     | Inr can_message \<Rightarrow> Inr (Some can_message))))))"

text \<open>\<^verbatim>\<open>convert_can_message_to_ascii_message\<close>.\<close>

definition convert_can_message_to_ascii_message :: "'f can_message \<Rightarrow> string" where
  "convert_can_message_to_ascii_message can_message =
     (let can_id = arbitration_id can_message;
          payload = data can_message;
          len = dlc can_message;
          bytes_string = str_join '' '' (map (\<lambda>x. format_x (uint x)) (slice_to payload len))
      in ''< send '' @ format_X can_id @ '' '' @ format_X len @ '' '' @ bytes_string @ '' >'')"

text \<open>
  \<^verbatim>\<open>connect_to_server\<close>. What \<^verbatim>\<open>s.connect\<close> and \<^verbatim>\<open>time.time\<close> return is up to the
  network and the clock: \<open>connect i\<close> says whether attempt \<open>i\<close> succeeds (it raises
  otherwise) and \<open>time i\<close> is the \<open>i\<close>-th reading of the clock, in seconds, a real number.
  The loop may run for ever, so the result is \<open>None\<close> when it does not return; otherwise it
  is the outcome and the number of attempts made.
\<close>

partial_function (option) connect_loop ::
    "(nat \<Rightarrow> bool) \<Rightarrow> (nat \<Rightarrow> real) \<Rightarrow> real \<Rightarrow> nat \<Rightarrow> real \<Rightarrow> ((exn + unit) \<times> nat) option" where
  "connect_loop connect time end_time i now =
     (if now < end_time
      then (if connect i then Some (Inr (), Suc i)
            else connect_loop connect time end_time (Suc i) (time (Suc i) * 1000))
      else Some (Inl TimeoutError, i))"

definition connect_to_server :: "(nat \<Rightarrow> bool) \<Rightarrow> (nat \<Rightarrow> real) \<Rightarrow> ((exn + unit) \<times> nat) option" where
  "connect_to_server connect time =
     (let timeout_ms = 10000;
          now = time 0 * 1000;
          end_time = now + timeout_ms
      in connect_loop connect time end_time 0 now)"

section \<open>The wire grammar in the words of the specification\<close>

text \<open>
  The inbound line that carries the same frame as an outbound line: the same id field, the
  given timestamp text, and the payload bytes as contiguous two-digit hex. \<open>space_fields\<close>
  cuts a string at every space.
\<close>

fun space_fields :: "string \<Rightarrow> string list" where
  "space_fields [] = [[]]"
| "space_fields (x # xs) =
     (if x = CHR '' '' then [] # space_fields xs
      else (case space_fields xs of [] \<Rightarrow> [[x]] | w # ws \<Rightarrow> (x # w) # ws))"

definition pad2 :: "string \<Rightarrow> string" where
  "pad2 f = (if length f = 1 then CHR ''0'' # f else f)"

definition inbound_equivalent :: "string \<Rightarrow> string \<Rightarrow> string option" where
  "inbound_equivalent ts out =
     (if startswith out ''< send '' \<and> endswith out '' >''
      then (let fs = space_fields (removesuffix (removeprefix out ''< send '') '' >'')
            in if length fs < 2 then None
               else Some (''< frame '' @ fs ! 0 @ '' '' @ ts @ '' '' @
                          concat (map pad2 (filter (\<lambda>f. f \<noteq> []) (drop 2 fs))) @ '' >''))
      else None)"




text \<open>
  The ranges of the specification's Frame as a check of the constructor: an id of at most
  29 bits, a payload of at most 8 bytes, a dlc from 0 to 8 and a timestamp that is not
  negative. The error names the first field that is out of range.
\<close>

definition frame_ranges :: "'f::{zero, ord} validator" where
  "frame_ranges ts can_id bs len =
     (if ts < 0 then Some (InvalidParameter ''timestamp'')
      else if can_id < 0 \<or> 2 ^ 29 \<le> can_id then Some (InvalidParameter ''arbitration_id'')
      else if 8 < length bs then Some (InvalidParameter ''data'')
      else if len < 0 \<or> 8 < len then Some (InvalidParameter ''dlc'')
      else None)"

text \<open>
  \<open>s\<close> is the numeral of \<open>n\<close> in base 16 over the digits of \<open>alphabet\<close>, without padding.
  A digit function is a hex table when the interpreter reads each of its digits back.
\<close>

definition unpadded_hex :: "string \<Rightarrow> string \<Rightarrow> nat \<Rightarrow> bool" where
  "unpadded_hex alphabet s n =
     (s \<noteq> [] \<and> set s \<subseteq> set alphabet \<and> (hd s = CHR ''0'' \<longrightarrow> s = ''0'') \<and>
      foldl (\<lambda>a c. 16 * a + digit_value c) 0 s = n)"

definition hex_table :: "(nat \<Rightarrow> char) \<Rightarrow> bool" where
  "hex_table dg = list_all (\<lambda>d. digit_value (dg d) = d) [0..<16]"

section \<open>Message construction\<close>

lemma check_payload_items_ok:
  "list_all (int_between 0 255) xs \<Longrightarrow> check_payload_items p xs = None"
  by (induction xs) (auto simp: int_between_def is_IntType_def in_range_def split: pyval.splits)

lemma check_payload_items_bad:
  "\<not> list_all (int_between 0 255) xs \<Longrightarrow>
   \<exists>reason. check_payload_items p xs = Some (InvalidMessageParameterError ''payload'' p reason)"
  by (induction xs) (auto simp: int_between_def is_IntType_def in_range_def split: pyval.splits)

lemma LogMessage_init_ok: "timestamp_in_range ts \<Longrightarrow> LogMessage_init ts = Inr ts"
  by (auto simp: timestamp_in_range_def LogMessage_init_def is_IntType_def is_FloatType_def
        lt_zero_def split: pyval.splits pyfloat.splits)

lemma LogMessage_init_cases:
  "(timestamp_rejected ts \<and>
      (\<exists>reason. LogMessage_init ts = Inl (InvalidMessageParameterError ''timestamp'' ts reason))) \<or>
   (\<not> timestamp_rejected ts \<and> LogMessage_init ts = Inr ts)"
  by (auto simp: timestamp_rejected_def LogMessage_init_def is_IntType_def is_FloatType_def
        lt_zero_def split: pyval.splits pyfloat.splits)

lemma Message_init_accepts:
  assumes "timestamp_in_range ts" "int_between 0 (2 ^ 11 - 1) d" "payload_in_range p"
          "int_between 0 8 k" "int_between 0 (2 ^ 16 - 1) f"
  shows "Message_init d p k f ts =
           Inr \<lparr>Message.timestamp = ts, device_id = d, payload = stored_payload p, Message.dlc = k, Message.flags = f\<rparr>"
proof -
  obtain xs where xs: "(if p = PyNone then PyList [] else p) = PyList xs" "length xs \<le> 8"
      "list_all (int_between 0 255) xs"
    using assms(3) by (auto simp: payload_in_range_def split: pyval.splits)
  have items: "check_payload_items (PyList xs) xs = None"
    using xs(3) by (rule check_payload_items_ok)
  obtain dn kn fn where v: "d = PyInt dn" "0 \<le> dn" "dn < 2 ^ 11" "k = PyInt kn" "0 \<le> kn" "kn < 9"
      "f = PyInt fn" "0 \<le> fn" "fn < 2 ^ 16"
    using assms(2,4,5) by (auto simp: int_between_def split: pyval.splits)
  show ?thesis
    unfolding Message_init_def LogMessage_init_ok[OF assms(1)] stored_payload_def xs(1) v
    using xs(2) items v(2,3,5,6,8,9)
    by (simp add: Let_def is_IntType_def in_range_def py_len_def py_iter_def)
qed

lemma int_check:
  "(is_IntType v \<and> in_range v 0 (hi + 1)) = int_between 0 hi v"
  by (auto simp: is_IntType_def in_range_def int_between_def split: pyval.splits)

lemma Message_init_rejects:
  assumes lst: "payload_is_list p"
      and bad: "timestamp_rejected ts \<or> \<not> int_between 0 (2 ^ 11 - 1) d \<or> \<not> payload_in_range p \<or>
                \<not> int_between 0 8 k \<or> \<not> int_between 0 (2 ^ 16 - 1) f"
  shows "\<exists>name val reason.
           Message_init d p k f ts = Inl (InvalidMessageParameterError name val reason) \<and>
           ((name = ''timestamp'' \<and> val = ts \<and> timestamp_rejected ts) \<or>
            (name = ''device_id'' \<and> val = d \<and> \<not> int_between 0 (2 ^ 11 - 1) d) \<or>
            (name = ''payload'' \<and> val = stored_payload p \<and> \<not> payload_in_range p) \<or>
            (name = ''dlc'' \<and> val = k \<and> \<not> int_between 0 8 k) \<or>
            (name = ''flags'' \<and> val = f \<and> \<not> int_between 0 (2 ^ 16 - 1) f))"
proof -
  obtain xs where xs: "(if p = PyNone then PyList [] else p) = PyList xs"
    using lst by (auto simp: payload_is_list_def split: pyval.splits)
  have pr: "payload_in_range p = (length xs < 9 \<and> list_all (int_between 0 255) xs)"
    using xs by (auto simp: payload_in_range_def split: pyval.splits if_splits)
  have sp: "stored_payload p = PyList xs" using xs by (simp add: stored_payload_def)
  have cd: "(is_IntType d \<and> in_range d 0 (2 ^ 11)) = int_between 0 (2 ^ 11 - 1) d"
    using int_check[of d "2 ^ 11 - 1"] by simp
  have ck: "(is_IntType k \<and> in_range k 0 9) = int_between 0 8 k"
    using int_check[of k 8] by simp
  have cf: "(is_IntType f \<and> in_range f 0 (2 ^ 16)) = int_between 0 (2 ^ 16 - 1) f"
    using int_check[of f "2 ^ 16 - 1"] by simp
  show ?thesis
  proof (cases "timestamp_rejected ts")
    case True
    then obtain r where "LogMessage_init ts = Inl (InvalidMessageParameterError ''timestamp'' ts r)"
      using LogMessage_init_cases[of ts] by auto
    then show ?thesis using True by (simp add: Message_init_def)
  next
    case ts_ok: False
    then have lm: "LogMessage_init ts = Inr ts" using LogMessage_init_cases[of ts] by auto
    show ?thesis
    proof (cases "int_between 0 (2 ^ 11 - 1) d")
      case False
      then show ?thesis using cd
        unfolding Message_init_def lm by (auto simp: Let_def)
    next
      case d_ok: True
      then have d1: "is_IntType d" "in_range d 0 (2 ^ 11)" using cd by auto
      show ?thesis
      proof (cases "payload_in_range p")
        case False
        show ?thesis
        proof (cases "length xs < 9")
          case False
          then show ?thesis using \<open>\<not> payload_in_range p\<close> d1
            unfolding Message_init_def lm xs sp by (simp add: Let_def py_len_def)
        next
          case True
          then have "\<not> list_all (int_between 0 255) xs" using \<open>\<not> payload_in_range p\<close> pr by simp
          then obtain r where "check_payload_items (PyList xs) xs =
              Some (InvalidMessageParameterError ''payload'' (PyList xs) r)"
            using check_payload_items_bad by blast
          then show ?thesis using \<open>\<not> payload_in_range p\<close> d1 True
            unfolding Message_init_def lm xs sp by (simp add: Let_def py_len_def py_iter_def)
        qed
      next
        case p_ok: True
        then have p1: "length xs < 9" "check_payload_items (PyList xs) xs = None"
          using pr check_payload_items_ok by auto
        show ?thesis
        proof (cases "int_between 0 8 k")
          case False
          then show ?thesis using ck d1 p1
            unfolding Message_init_def lm xs sp by (auto simp: Let_def py_len_def py_iter_def)
        next
          case k_ok: True
          then have k1: "is_IntType k" "in_range k 0 9" using ck by auto
          have "\<not> int_between 0 (2 ^ 16 - 1) f" using bad ts_ok d_ok p_ok k_ok by blast
          then show ?thesis using cf d1 p1 k1
            unfolding Message_init_def lm xs sp by (auto simp: Let_def py_len_def py_iter_def)
        qed
      qed
    qed
  qed
qed

text \<open>
  Claim C2, as amended. With a timestamp of at least zero, a device id from 0 to
  \<open>2\<^sup>1\<^sup>1 - 1\<close>, a payload that is \<^verbatim>\<open>None\<close> or a list of at most eight ints from 0 to 255, a
  dlc from 0 to 8 and flags from 0 to \<open>2\<^sup>1\<^sup>6 - 1\<close>, the constructor succeeds and every field it
  stores is its argument (the empty list for the payload \<^verbatim>\<open>None\<close>). When the payload is a
  list or \<^verbatim>\<open>None\<close> and any argument is outside its range (for the timestamp: not a float or
  an int, or below zero), it raises InvalidMessageParameterError with the name and the
  value of an argument that is outside its range, and a reason; nothing is clamped.
\<close>

theorem Message_init_validates:
  "(timestamp_in_range ts \<and> int_between 0 (2 ^ 11 - 1) d \<and> payload_in_range p \<and>
    int_between 0 8 k \<and> int_between 0 (2 ^ 16 - 1) f \<longrightarrow>
      Message_init d p k f ts =
        Inr \<lparr>Message.timestamp = ts, device_id = d, payload = stored_payload p, Message.dlc = k, Message.flags = f\<rparr>) \<and>
   (payload_is_list p \<and>
    (timestamp_rejected ts \<or> \<not> int_between 0 (2 ^ 11 - 1) d \<or> \<not> payload_in_range p \<or>
     \<not> int_between 0 8 k \<or> \<not> int_between 0 (2 ^ 16 - 1) f) \<longrightarrow>
      (\<exists>name val reason.
           Message_init d p k f ts = Inl (InvalidMessageParameterError name val reason) \<and>
           ((name = ''timestamp'' \<and> val = ts \<and> timestamp_rejected ts) \<or>
            (name = ''device_id'' \<and> val = d \<and> \<not> int_between 0 (2 ^ 11 - 1) d) \<or>
            (name = ''payload'' \<and> val = stored_payload p \<and> \<not> payload_in_range p) \<or>
            (name = ''dlc'' \<and> val = k \<and> \<not> int_between 0 8 k) \<or>
            (name = ''flags'' \<and> val = f \<and> \<not> int_between 0 (2 ^ 16 - 1) f))))"
  using Message_init_accepts[of ts d p k f] Message_init_rejects[of p ts d k f] by blast

text \<open>
  Claim C2 as stated fails: 2048 fits the 29 bits of an extended id, and the constructor
  refuses it whatever the flags say, here with flags 4.
\<close>

theorem Message_init_extended_id_rejected:
  "int_between 0 (2 ^ 29 - 1) (PyInt 2048) \<and>
   Message_init (PyInt 2048) (PyList []) (PyInt 0) (PyInt 4) (PyFloat (Finite 0)) =
     Inl (InvalidMessageParameterError ''device_id'' (PyInt 2048)
            ''device_id must be in range [0, 2**11-1]'')"
  by (simp add: Message_init_def LogMessage_init_def int_between_def is_IntType_def
        is_FloatType_def lt_zero_def in_range_def Let_def)

text \<open>
  Claim C2 as amended, at arguments inside the ranges, which are stored, and at a dlc of 9,
  which is reported under its name.
\<close>

theorem Message_init_validates_witness:
  "Message_init (PyInt 2047) (PyList [PyInt 0, PyInt 255]) (PyInt 2) (PyInt 4) (PyFloat (Finite 1.5)) =
     Inr \<lparr>Message.timestamp = PyFloat (Finite 1.5), device_id = PyInt 2047,
          payload = PyList [PyInt 0, PyInt 255], Message.dlc = PyInt 2, Message.flags = PyInt 4\<rparr> \<and>
   (\<exists>reason. Message_init (PyInt 5) (PyList []) (PyInt 9) (PyInt 0) (PyInt 0) =
      Inl (InvalidMessageParameterError ''dlc'' (PyInt 9) reason))"
proof -
  have a: "Message_init (PyInt 2047) (PyList [PyInt 0, PyInt 255]) (PyInt 2) (PyInt 4) (PyFloat (Finite 1.5)) =
     Inr \<lparr>Message.timestamp = PyFloat (Finite 1.5), device_id = PyInt 2047,
          payload = PyList [PyInt 0, PyInt 255], Message.dlc = PyInt 2, Message.flags = PyInt 4\<rparr>"
    using Message_init_validates[of "PyFloat (Finite 1.5)" "PyInt 2047" "PyList [PyInt 0, PyInt 255]" "PyInt 2" "PyInt 4"]
    by (simp add: timestamp_in_range_def int_between_def payload_in_range_def stored_payload_def)
  have b: "\<exists>reason. Message_init (PyInt 5) (PyList []) (PyInt 9) (PyInt 0) (PyInt 0) =
      Inl (InvalidMessageParameterError ''dlc'' (PyInt 9) reason)"
    using Message_init_validates[of "PyInt 0" "PyInt 5" "PyList []" "PyInt 9" "PyInt 0"]
    by (simp add: timestamp_in_range_def timestamp_rejected_def int_between_def payload_in_range_def
          payload_is_list_def stored_payload_def)
  from a b show ?thesis ..
qed

section \<open>The handle registry\<close>

lemma visit_match: "matches hp ch fl a \<Longrightarrow> visit hp ch fl acc (k, a) = (True, Some a)"
  by (simp add: visit_def matches_def split: prod.splits)

lemma visit_nomatch: "\<not> matches hp ch fl a \<Longrightarrow> visit hp ch fl acc (k, a) = acc"
  by (auto simp: visit_def matches_def split: prod.splits)

lemma scan_cong:
  "\<forall>(k, a) \<in> set reg. matches hp ch fl a = matches hp' ch fl a \<Longrightarrow>
   foldl (visit hp ch fl) acc reg = foldl (visit hp' ch fl) acc reg"
proof (induction reg arbitrary: acc)
  case Nil
  then show ?case by simp
next
  case (Cons e reg)
  obtain k a where e: "e = (k, a)" by (cases e)
  have "visit hp ch fl acc (k, a) = visit hp' ch fl acc (k, a)"
    using Cons.prems e by (cases "matches hp ch fl a") (simp_all add: visit_match visit_nomatch)
  then show ?case using Cons e by simp
qed

lemma scan_none:
  "\<forall>(k, a) \<in> set reg. \<not> matches hp ch fl a \<Longrightarrow> foldl (visit hp ch fl) acc reg = acc"
  by (induction reg arbitrary: acc) (auto simp: visit_nomatch)

lemma scan_unique:
  "\<exists>(k, a) \<in> set reg. matches hp ch fl a \<Longrightarrow>
   \<forall>(k, a) \<in> set reg. matches hp ch fl a \<longrightarrow> a = ref \<Longrightarrow>
   foldl (visit hp ch fl) acc reg = (True, Some ref)"
proof (induction reg arbitrary: acc)
  case Nil
  then show ?case by simp
next
  case (Cons e reg)
  obtain k a where e: "e = (k, a)" by (cases e)
  show ?case
  proof (cases "\<exists>(k, a) \<in> set reg. matches hp ch fl a")
    case True
    then show ?thesis using Cons by simp
  next
    case False
    then have none: "\<forall>(k, a) \<in> set reg. \<not> matches hp ch fl a" by auto
    have m: "matches hp ch fl a" "a = ref" using Cons.prems False e by auto
    show ?thesis using m by (simp add: e scan_none[OF none] visit_match)
  qed
qed

lemma scan_found:
  "foldl (visit hp ch fl) acc reg = (True, h) \<Longrightarrow>
   acc = (True, h) \<or> (\<exists>k a. h = Some a \<and> (k, a) \<in> set reg \<and> matches hp ch fl a)"
proof (induction reg arbitrary: acc)
  case Nil
  then show ?case by simp
next
  case (Cons e reg)
  obtain k a where e: "e = (k, a)" by (cases e)
  from Cons.prems have "foldl (visit hp ch fl) (visit hp ch fl acc (k, a)) reg = (True, h)"
    by (simp add: e)
  from Cons.IH[OF this] show ?case
  proof
    assume v: "visit hp ch fl acc (k, a) = (True, h)"
    show ?thesis
    proof (cases "matches hp ch fl a")
      case True
      then show ?thesis using v e by (auto simp: visit_match)
    next
      case False
      then show ?thesis using v by (simp add: visit_nomatch)
    qed
  next
    assume "\<exists>k a. h = Some a \<and> (k, a) \<in> set reg \<and> matches hp ch fl a"
    then show ?thesis by auto
  qed
qed

lemma scan_not_found:
  "foldl (visit hp ch fl) acc reg = (False, h) \<Longrightarrow> \<forall>(k, a) \<in> set reg. \<not> matches hp ch fl a"
proof (induction reg arbitrary: acc)
  case Nil
  then show ?case by simp
next
  case (Cons e reg)
  obtain k a where e: "e = (k, a)" by (cases e)
  from Cons.prems have f: "foldl (visit hp ch fl) (visit hp ch fl acc (k, a)) reg = (False, h)"
    by (simp add: e)
  have rest: "\<forall>(k, a) \<in> set reg. \<not> matches hp ch fl a" using Cons.IH[OF f] .
  have "\<not> matches hp ch fl a"
  proof
    assume "matches hp ch fl a"
    then have "visit hp ch fl acc (k, a) = (True, Some a)" by (rule visit_match)
    with f rest show False by (simp add: scan_none)
  qed
  with rest e show ?case by simp
qed

lemma update_mem: "(k, v) \<in> set (AList.update k v al)"
  by (induction al) auto

lemma update_subset: "set (AList.update k v al) \<subseteq> insert (k, v) (set al)"
  by (induction al) auto

lemma Handle_init_fields:
  "Handle_init lib ch fl d = Inr (obj, d') \<Longrightarrow> channel obj = ch \<and> Handle.flags obj = fl"
  by (auto simp: Handle_init_def Let_def split: if_splits prod.splits sum.splits)

lemma registry_of_simps [simp]:
  "registry_of r (w\<lparr>driver := d\<rparr>) = registry_of r w"
  "registry_of r (w\<lparr>heap := hp\<rparr>) = registry_of r w"
  "registry_of r (w\<lparr>buses := bs\<rparr>) = registry_of r w"
  "registry_of r (set_registry r reg w) = reg"
  by (cases r; simp add: registry_of_def set_registry_def)+

lemma set_registry_simps [simp]:
  "heap (set_registry r reg w) = heap w"
  "driver (set_registry r reg w) = driver w"
  "buses (set_registry r reg w) = buses w"
  "(set_registry r reg w)\<lparr>driver := d\<rparr> = set_registry r reg (w\<lparr>driver := d\<rparr>)"
  by (cases r; simp add: set_registry_def)+

lemma get_handle_found:
  assumes "scan_registry (heap w) ch fl (registry_of r w) = (True, Some ref)"
  shows "\<exists>d. get_handle lib ch fl r w = Inr (ref, w\<lparr>driver := d\<rparr>)"
  by (rule exI) (simp add: get_handle_def assms Let_def)

lemma get_handle_new:
  assumes "scan_registry (heap w) ch fl (registry_of r w) = (False, h0)"
      and "Handle_init lib ch fl (driver w) = Inr (obj, d1)"
  shows "\<exists>d. get_handle lib ch fl r w =
           Inr (length (heap w),
                set_registry r (AList.update (canlib_handle obj) (length (heap w)) (registry_of r w))
                  (w\<lparr>heap := heap w @ [obj], driver := d\<rparr>))"
  by (rule exI) (simp add: get_handle_def assms Let_def)

lemma get_handle_cases:
  assumes "get_handle lib ch fl r w = Inr (ref, w')"
  shows "(scan_registry (heap w) ch fl (registry_of r w) = (True, Some ref) \<and>
            (\<exists>d. w' = w\<lparr>driver := d\<rparr>)) \<or>
         (\<exists>h0 obj d. scan_registry (heap w) ch fl (registry_of r w) = (False, h0) \<and>
            channel obj = ch \<and> Handle.flags obj = fl \<and> ref = length (heap w) \<and>
            w' = set_registry r (AList.update (canlib_handle obj) ref (registry_of r w))
                   (w\<lparr>heap := heap w @ [obj], driver := d\<rparr>))"
proof -
  obtain fnd h where sc: "scan_registry (heap w) ch fl (registry_of r w) = (fnd, h)"
    by (cases "scan_registry (heap w) ch fl (registry_of r w)")
  show ?thesis
  proof (cases fnd)
    case True
    with assms sc show ?thesis
      by (auto simp: get_handle_def Let_def split: option.splits if_splits)
  next
    case False
    with assms sc obtain obj d1 where hi: "Handle_init lib ch fl (driver w) = Inr (obj, d1)"
      by (auto simp: get_handle_def Let_def split: sum.splits)
    from sc False have sc': "scan_registry (heap w) ch fl (registry_of r w) = (False, h)" by simp
    from get_handle_new[OF sc' hi] assms Handle_init_fields[OF hi]
    show ?thesis using sc' by auto
  qed
qed

lemma wf_world_alt: "wf_world w = (\<forall>r. wf_registry (heap w) (registry_of r w))"
proof
  assume "wf_world w"
  then show "\<forall>r. wf_registry (heap w) (registry_of r w)"
    by (auto simp: wf_world_def registry_of_def split: registry_ref.splits)
next
  assume a: "\<forall>r. wf_registry (heap w) (registry_of r w)"
  from a[rule_format, of READ] a[rule_format, of WRITE] show "wf_world w"
    by (simp add: wf_world_def registry_of_def)
qed

lemma wf_registry_mono:
  "wf_registry hp reg \<Longrightarrow> length hp \<le> length hp' \<Longrightarrow> wf_registry hp' reg"
  by (auto simp: wf_registry_def list_all_iff)

lemma wf_registry_update:
  assumes "wf_registry hp reg"
  shows "wf_registry (hp @ [obj]) (AList.update k (length hp) reg)"
proof -
  have "\<forall>(k', a') \<in> set (AList.update k (length hp) reg). a' < length (hp @ [obj])"
    using update_subset[of k "length hp" reg] assms
    by (fastforce simp: wf_registry_def list_all_iff)
  then show ?thesis
    using assms distinct_update[of reg k "length hp"]
    by (simp add: wf_registry_def list_all_iff)
qed

lemma wf_registry_ref:
  "wf_registry hp reg \<Longrightarrow> (k, a) \<in> set reg \<Longrightarrow> a < length hp"
  by (auto simp: wf_registry_def list_all_iff)

lemma registry_of_other:
  "r' \<noteq> r \<Longrightarrow> registry_of r' (set_registry r reg w) = registry_of r' w"
  by (cases r; cases r'; simp add: registry_of_def set_registry_def)

lemma get_handle_post:
  assumes wf: "wf_world w" and g: "get_handle lib ch fl r w = Inr (ref, w')"
  shows "scan_registry (heap w') ch fl (registry_of r w') = (True, Some ref)"
    and "wf_world w'"
    and "ref < length (heap w')"
    and "\<exists>ext. heap w' = heap w @ ext"
    and "r' \<noteq> r \<Longrightarrow> registry_of r' w' = registry_of r' w"
    and "buses w' = buses w"
proof -
  let ?reg = "registry_of r w"
  have wfr: "\<And>q. wf_registry (heap w) (registry_of q w)" using wf by (simp add: wf_world_alt)
  from get_handle_cases[OF g]
  have "scan_registry (heap w') ch fl (registry_of r w') = (True, Some ref) \<and> wf_world w' \<and>
        ref < length (heap w') \<and> (\<exists>ext. heap w' = heap w @ ext) \<and>
        (r' \<noteq> r \<longrightarrow> registry_of r' w' = registry_of r' w) \<and> buses w' = buses w"
  proof (elim disjE conjE exE)
    fix d
    assume sc: "scan_registry (heap w) ch fl ?reg = (True, Some ref)" and w': "w' = w\<lparr>driver := d\<rparr>"
    from sc obtain k where "(k, ref) \<in> set ?reg"
      using scan_found[of "heap w" ch fl "(False, None)" ?reg "Some ref"]
      by (auto simp: scan_registry_def)
    then have "ref < length (heap w)" using wfr wf_registry_ref by blast
    then show ?thesis using sc w' wf by (simp add: wf_world_alt)
  next
    fix h0 obj d
    assume sc: "scan_registry (heap w) ch fl ?reg = (False, h0)"
       and obj: "channel obj = ch" "Handle.flags obj = fl"
       and ref: "ref = length (heap w)"
       and w': "w' = set_registry r (AList.update (canlib_handle obj) ref ?reg)
                       (w\<lparr>heap := heap w @ [obj], driver := d\<rparr>)"
    let ?hp' = "heap w @ [obj]"
    let ?reg' = "AList.update (canlib_handle obj) ref ?reg"
    have nomatch: "\<forall>(k, a) \<in> set ?reg. \<not> matches (heap w) ch fl a"
      using sc scan_not_found unfolding scan_registry_def by blast
    have m: "matches ?hp' ch fl ref" using obj ref by (simp add: matches_def)
    have ex: "\<exists>(k, a) \<in> set ?reg'. matches ?hp' ch fl a"
      using update_mem[of "canlib_handle obj" ref ?reg] m by blast
    have uniq: "\<forall>(k, a) \<in> set ?reg'. matches ?hp' ch fl a \<longrightarrow> a = ref"
    proof (clarify)
      fix k a assume in': "(k, a) \<in> set ?reg'" and ma: "matches ?hp' ch fl a"
      show "a = ref"
      proof (rule ccontr)
        assume ne: "a \<noteq> ref"
        then have inreg: "(k, a) \<in> set ?reg" using in' update_subset[of "canlib_handle obj" ref ?reg] by auto
        then have "a < length (heap w)" using wfr wf_registry_ref by blast
        then have "matches (heap w) ch fl a" using ma by (simp add: matches_def nth_append)
        with nomatch inreg show False by blast
      qed
    qed
    have 1: "scan_registry (heap w') ch fl (registry_of r w') = (True, Some ref)"
      unfolding scan_registry_def w' using scan_unique[OF ex uniq] by simp
    have 2: "wf_world w'"
      unfolding wf_world_alt
    proof
      fix q
      show "wf_registry (heap w') (registry_of q w')"
      proof (cases "q = r")
        case True
        then show ?thesis using wf_registry_update[OF wfr[of r]] w' ref by simp
      next
        case False
        then show ?thesis using wf_registry_mono[OF wfr[of q], of ?hp'] w'
          by (simp add: registry_of_other)
      qed
    qed
    show ?thesis using 1 2 w' ref by (simp add: registry_of_other)
  qed
  then show "scan_registry (heap w') ch fl (registry_of r w') = (True, Some ref)"
    and "wf_world w'"
    and "ref < length (heap w')"
    and "\<exists>ext. heap w' = heap w @ ext"
    and "r' \<noteq> r \<Longrightarrow> registry_of r' w' = registry_of r' w"
    and "buses w' = buses w"
    by blast+
qed

lemma get_handle_idempotent:
  assumes "wf_world w" and "get_handle lib ch fl r w = Inr (ref, w')"
  shows "\<exists>d. get_handle lib ch fl r w' = Inr (ref, w'\<lparr>driver := d\<rparr>)"
  using get_handle_found[OF get_handle_post(1)[OF assms]] .

lemma Bus_init_cases:
  assumes "Bus_init lib ch fl p mode nm w = Inr (b, w')"
  shows "\<exists>rh wa wh wb d bus.
           get_handle lib ch fl READ w = Inr (rh, wa) \<and>
           get_handle lib ch fl WRITE wa = Inr (wh, wb) \<and>
           b = length (buses wb) \<and> read_handle bus = rh \<and> write_handle bus = wh \<and>
           w' = wb\<lparr>heap := (heap wb)[rh := (heap wb ! rh)\<lparr>Handle.listeners := Handle.listeners (heap wb ! rh) @ [b]\<rparr>],
                   buses := buses wb @ [bus], driver := d\<rparr>"
proof -
  obtain rh wa where gr: "get_handle lib ch fl READ w = Inr (rh, wa)"
    using assms by (auto simp: Bus_init_def split: sum.splits)
  obtain wh wb where gw: "get_handle lib ch fl WRITE wa = Inr (wh, wb)"
    using assms gr by (auto simp: Bus_init_def split: sum.splits)
  define d where "d = program_handles lib (canlib_handle (heap wb ! rh))
                        (canlib_handle (heap wb ! wh)) p mode (driver wb)"
  define bus where "bus = \<lparr>name = nm, read_handle = rh, write_handle = wh, driver_mode = mode,
                          rx_queue = [],
                          timer_offset = canReadTimer lib (canlib_handle (heap wb ! rh)) d\<rparr>"
  have e: "b = length (buses wb)"
          "w' = wb\<lparr>heap := (heap wb)[rh := (heap wb ! rh)\<lparr>Handle.listeners := Handle.listeners (heap wb ! rh) @ [b]\<rparr>],
                   buses := buses wb @ [bus], driver := d\<rparr>"
    using assms by (auto simp: Bus_init_def gr gw d_def bus_def Let_def)
  have f: "read_handle bus = rh" "write_handle bus = wh" by (simp_all add: bus_def)
  from gr gw e f show ?thesis by blast
qed

lemma matches_listeners:
  "matches (hp[rh := (hp ! rh)\<lparr>Handle.listeners := ls\<rparr>]) ch fl a = matches hp ch fl a"
  by (cases "rh < length hp"; cases "a = rh"; simp add: matches_def list_update_beyond)

lemma Bus_init_post:
  assumes wf: "wf_world w" and b: "Bus_init lib ch fl p mode nm w = Inr (b, w')"
  shows "wf_world w'"
    and "b = length (buses w)" and "length (buses w') = Suc b"
    and "scan_registry (heap w') ch fl (registry_of READ w') = (True, Some (read_handle (buses w' ! b)))"
    and "scan_registry (heap w') ch fl (registry_of WRITE w') = (True, Some (write_handle (buses w' ! b)))"
proof -
  from Bus_init_cases[OF b] obtain rh wa wh wb d bus where
        gr: "get_handle lib ch fl READ w = Inr (rh, wa)"
    and gw: "get_handle lib ch fl WRITE wa = Inr (wh, wb)"
    and bl: "b = length (buses wb)" and bus: "read_handle bus = rh" "write_handle bus = wh"
    and w': "w' = wb\<lparr>heap := (heap wb)[rh := (heap wb ! rh)\<lparr>Handle.listeners := Handle.listeners (heap wb ! rh) @ [b]\<rparr>],
                   buses := buses wb @ [bus], driver := d\<rparr>"
    by blast
  note pr = get_handle_post[OF wf gr]
  note pw = get_handle_post[OF pr(2) gw]
  have wfa: "\<And>q. wf_registry (heap wa) (registry_of q wa)" using pr(2) by (simp add: wf_world_alt)
  have wfb: "\<And>q. wf_registry (heap wb) (registry_of q wb)" using pw(2) by (simp add: wf_world_alt)
  have len: "length (heap wb) \<le> length (heap w')" using w' by simp
  have regs: "\<And>q. registry_of q w' = registry_of q wb" using w' by simp
  show "wf_world w'"
    unfolding wf_world_alt regs using wf_registry_mono[OF wfb len] by simp
  show "b = length (buses w)" using bl pr(6) pw(6) by simp
  show "length (buses w') = Suc b" using bl w' by simp
  have bb: "buses w' ! b = bus" using bl w' by simp
  have rd: "registry_of READ wb = registry_of READ wa" using pw(5)[of READ] by simp
  from pw(4) obtain ext where ext: "heap wb = heap wa @ ext" by blast
  have rr: "registry_of READ w' = registry_of READ wa" using w' rd by simp
  have "scan_registry (heap w') ch fl (registry_of READ w') =
        scan_registry (heap wa) ch fl (registry_of READ wa)"
    unfolding scan_registry_def rr
  proof (rule scan_cong, clarify)
    fix k a assume "(k, a) \<in> set (registry_of READ wa)"
    then have "a < length (heap wa)" using wfa wf_registry_ref by blast
    then show "matches (heap w') ch fl a = matches (heap wa) ch fl a"
      using w' ext by (simp add: matches_listeners) (simp add: matches_def nth_append)
  qed
  then show "scan_registry (heap w') ch fl (registry_of READ w') = (True, Some (read_handle (buses w' ! b)))"
    using pr(1) bb bus by simp
  have "scan_registry (heap w') ch fl (registry_of WRITE w') =
        scan_registry (heap wb) ch fl (registry_of WRITE wb)"
    unfolding scan_registry_def regs
    by (rule scan_cong) (simp add: w' matches_listeners)
  then show "scan_registry (heap w') ch fl (registry_of WRITE w') = (True, Some (write_handle (buses w' ! b)))"
    using pw(1) bb bus by simp
qed

lemma Bus_init_found:
  assumes "scan_registry (heap w) ch fl (registry_of READ w) = (True, Some rh)"
      and "scan_registry (heap w) ch fl (registry_of WRITE w) = (True, Some wh)"
  shows "\<exists>w' t. Bus_init lib ch fl p mode nm w = Inr (length (buses w), w') \<and>
           buses w' = buses w @ [\<lparr>name = nm, read_handle = rh, write_handle = wh, driver_mode = mode,
               rx_queue = [], timer_offset = t\<rparr>]"
proof -
  from get_handle_found[OF assms(1), of lib] obtain d1 where
    g1: "get_handle lib ch fl READ w = Inr (rh, w\<lparr>driver := d1\<rparr>)" by blast
  have "scan_registry (heap (w\<lparr>driver := d1\<rparr>)) ch fl (registry_of WRITE (w\<lparr>driver := d1\<rparr>)) = (True, Some wh)"
    using assms(2) by simp
  from get_handle_found[OF this, of lib] obtain d2 where
    g2: "get_handle lib ch fl WRITE (w\<lparr>driver := d1\<rparr>) = Inr (wh, w\<lparr>driver := d2\<rparr>)" by auto
  show ?thesis
    by (simp add: Bus_init_def g1 g2 Let_def)
qed

lemma Bus_shares_handles:
  assumes wf: "wf_world w" and b1: "Bus_init lib ch fl p mode nm w = Inr (b1, w1)"
  shows "\<exists>b2 w2. Bus_init lib ch fl p' mode' nm' w1 = Inr (b2, w2) \<and> b2 \<noteq> b1 \<and>
           read_handle (buses w2 ! b2) = read_handle (buses w2 ! b1) \<and>
           write_handle (buses w2 ! b2) = write_handle (buses w2 ! b1)"
proof -
  note post = Bus_init_post[OF wf b1]
  from Bus_init_found[OF post(4,5), of lib p' mode' nm'] obtain w2 t where
    b2: "Bus_init lib ch fl p' mode' nm' w1 = Inr (length (buses w1), w2)"
    and bs: "buses w2 = buses w1 @ [\<lparr>name = nm', read_handle = read_handle (buses w1 ! b1),
               write_handle = write_handle (buses w1 ! b1), driver_mode = mode',
               rx_queue = [], timer_offset = t\<rparr>]"
    by blast
  have "b1 < length (buses w1)" using post(3) by simp
  then have "buses w2 ! b1 = buses w1 ! b1" by (subst bs) (simp add: nth_append)
  moreover have "read_handle (buses w2 ! length (buses w1)) = read_handle (buses w1 ! b1)"
    "write_handle (buses w2 ! length (buses w1)) = write_handle (buses w1 ! b1)"
    by (subst bs, simp)+
  ultimately show ?thesis using b2 post(3) by auto
qed

lemma get_handle_unregistered:
  assumes "\<forall>(k, a) \<in> set (registry_of r w). \<not> matches (heap w) ch fl a"
      and "Handle_init lib ch fl (driver w) = Inr (obj, d1)"
  shows "\<exists>d. get_handle lib ch fl r w =
           Inr (length (heap w),
                set_registry r (AList.update (canlib_handle obj) (length (heap w)) (registry_of r w))
                  (w\<lparr>heap := heap w @ [obj], driver := d\<rparr>))"
proof -
  have "scan_registry (heap w) ch fl (registry_of r w) = (False, None)"
    unfolding scan_registry_def using assms(1) by (rule scan_none)
  from get_handle_new[OF this assms(2)] show ?thesis .
qed

text \<open>
  Claim C6. In a well-formed store, a call of \<^verbatim>\<open>_get_handle\<close> that returned a handle is
  followed by a call with the same channel, flags and registry that returns the same
  object and changes the driver state only; a second \<^verbatim>\<open>Bus\<close> with the channel and flags of
  a first one is constructed and has the read handle and the write handle of the first;
  and when no handle of the registry has the channel and the flags and the driver opens
  one, the call returns a new object and registers it under its driver handle number.
\<close>

theorem get_handle_deduplicates:
  assumes "wf_world w"
  shows "(get_handle lib ch fl r w = Inr (ref, w1) \<longrightarrow>
            (\<exists>d. get_handle lib ch fl r w1 = Inr (ref, w1\<lparr>driver := d\<rparr>))) \<and>
         (Bus_init lib ch fl p mode nm w = Inr (b1, w1') \<longrightarrow>
            (\<exists>b2 w2. Bus_init lib ch fl p' mode' nm' w1' = Inr (b2, w2) \<and> b2 \<noteq> b1 \<and>
               read_handle (buses w2 ! b2) = read_handle (buses w2 ! b1) \<and>
               write_handle (buses w2 ! b2) = write_handle (buses w2 ! b1))) \<and>
         ((\<forall>(k, a) \<in> set (registry_of r w). \<not> matches (heap w) ch fl a) \<and>
          Handle_init lib ch fl (driver w) = Inr (obj, d1) \<longrightarrow>
            (\<exists>d. get_handle lib ch fl r w =
               Inr (length (heap w),
                    set_registry r
                      (AList.update (canlib_handle obj) (length (heap w)) (registry_of r w))
                      (w\<lparr>heap := heap w @ [obj], driver := d\<rparr>))))"
  using get_handle_idempotent[OF assms, of lib ch fl r ref w1]
        Bus_shares_handles[OF assms, of lib ch fl p mode nm b1 w1' p' mode' nm']
        get_handle_unregistered[of r w ch fl lib obj d1]
  by blast

lemmas sim_eval =
  sim_canlib_def empty_world_def default_params_def Bus_init_def get_handle_def Handle_init_def
  scan_registry_def visit_def registry_of_def set_registry_def dict_eq_def program_handles_def
  program_bus_def wf_world_def wf_registry_def Let_def

lemma sim_get_handle:
  "get_handle sim_canlib 0 0 READ empty_world =
     Inr (0, \<lparr>heap = [\<lparr>channel = 0, flags = 0, canlib_handle = 0, Handle.listeners = [], Handle.tx_queue = [],
                       reading = False, writing = False, receive_callback_enabled = True,
                       transmit_callback_enabled = True\<rparr>],
              READ_HANDLE_REGISTRY = [(0, 0)], WRITE_HANDLE_REGISTRY = [], buses = [], driver = 1\<rparr>)"
  by (simp add: sim_eval)

lemma sim_Bus_init:
  "Bus_init sim_canlib 0 0 default_params 0 ''a'' empty_world =
     Inr (0, \<lparr>heap = [\<lparr>channel = 0, flags = 0, canlib_handle = 0, Handle.listeners = [0], Handle.tx_queue = [],
                       reading = False, writing = False, receive_callback_enabled = True,
                       transmit_callback_enabled = True\<rparr>,
                      \<lparr>channel = 0, flags = 0, canlib_handle = 1, Handle.listeners = [], Handle.tx_queue = [],
                       reading = False, writing = False, receive_callback_enabled = True,
                       transmit_callback_enabled = True\<rparr>],
              READ_HANDLE_REGISTRY = [(0, 0)], WRITE_HANDLE_REGISTRY = [(1, 1)],
              buses = [\<lparr>name = ''a'', read_handle = 0, write_handle = 1, driver_mode = 0,
                        rx_queue = [], timer_offset = 0\<rparr>],
              driver = 2\<rparr>)"
  by (simp add: sim_eval)

text \<open>
  Claim C6 on the simulated driver, from the empty store: the second call returns the
  object of the first, and the second bus has the handles of the first.
\<close>

theorem get_handle_deduplicates_witness:
  "wf_world empty_world \<and>
   (case get_handle sim_canlib 0 0 READ empty_world of
      Inl e \<Rightarrow> False
    | Inr (ref, w1) \<Rightarrow> \<exists>d. get_handle sim_canlib 0 0 READ w1 = Inr (ref, w1\<lparr>driver := d\<rparr>)) \<and>
   (case Bus_init sim_canlib 0 0 default_params 0 ''a'' empty_world of
      Inl e \<Rightarrow> False
    | Inr (b1, w1) \<Rightarrow>
        \<exists>b2 w2. Bus_init sim_canlib 0 0 default_params 1 ''b'' w1 = Inr (b2, w2) \<and> b2 \<noteq> b1 \<and>
          read_handle (buses w2 ! b2) = read_handle (buses w2 ! b1) \<and>
          write_handle (buses w2 ! b2) = write_handle (buses w2 ! b1))"
proof -
  have wf: "wf_world empty_world"
    by (simp add: wf_world_def wf_registry_def empty_world_def)
  obtain w1 where g: "get_handle sim_canlib 0 0 READ empty_world = Inr (0, w1)"
    by (simp add: sim_get_handle)
  obtain wb where b: "Bus_init sim_canlib 0 0 default_params 0 ''a'' empty_world = Inr (0, wb)"
    by (simp add: sim_Bus_init)
  note c = get_handle_deduplicates
             [OF wf, of sim_canlib 0 0 READ 0 w1 default_params 0 "''a''" 0 wb default_params 1 "''b''"]
  show ?thesis
    using wf c g b by simp
qed

section \<open>The bus, the buffered listener and the connection loop\<close>

lemma tx_thread_noop: "tx_thread put_message self = Some self"
  by (subst tx_thread.simps) simp

lemma connect_loop_timeout:
  assumes "\<forall>i. j \<le> i \<and> i < n \<longrightarrow> \<not> connect i \<and> time i * 1000 < e"
      and "\<not> time n * 1000 < e" and "j \<le> n"
  shows "connect_loop connect time e j (time j * 1000) = Some (Inl TimeoutError, n)"
  using assms
proof (induction "n - j" arbitrary: j)
  case 0
  then have "j = n" by simp
  with 0 show ?case by (subst connect_loop.simps) simp
next
  case (Suc d)
  then have lt: "j < n" by simp
  with Suc.prems have a: "\<not> connect j" "time j * 1000 < e" by auto
  have "connect_loop connect time e (Suc j) (time (Suc j) * 1000) = Some (Inl TimeoutError, n)"
    using Suc.hyps(1)[of "Suc j"] Suc.hyps(2) Suc.prems lt by auto
  with a show ?case by (subst connect_loop.simps) simp
qed

lemma connect_loop_success:
  assumes "\<forall>i. j \<le> i \<and> i < k \<longrightarrow> \<not> connect i"
      and "\<forall>i. j \<le> i \<and> i \<le> k \<longrightarrow> time i * 1000 < e" and "connect k" and "j \<le> k"
  shows "connect_loop connect time e j (time j * 1000) = Some (Inr (), Suc k)"
  using assms
proof (induction "k - j" arbitrary: j)
  case 0
  then have "j = k" by simp
  with 0 show ?case by (subst connect_loop.simps) simp
next
  case (Suc d)
  then have lt: "j < k" by simp
  with Suc.prems have a: "\<not> connect j" "time j * 1000 < e" by auto
  have "connect_loop connect time e (Suc j) (time (Suc j) * 1000) = Some (Inr (), Suc k)"
    using Suc.hyps(1)[of "Suc j"] Suc.hyps(2) Suc.prems lt by auto
  with a show ?case by (subst connect_loop.simps) simp
qed

text \<open>
  Claim C5. For every bus state and every \<^verbatim>\<open>_put_message\<close>, the writer loop returns, and
  returns the state it was given: the queue, the listeners, the flag, and the backend, on
  which \<^verbatim>\<open>_put_message\<close> acts, are unchanged.
\<close>

theorem tx_thread_never_runs:
  "tx_thread put_message self = Some self"
  by (rule tx_thread_noop)

text \<open>
  Claim C5 at a running bus with one queued message: the loop returns the state as it
  was, where one run of its body would have emptied the queue and called \<^verbatim>\<open>_put_message\<close>.
\<close>

theorem tx_thread_never_runs_witness:
  "tx_thread (\<lambda>m b. m # b)
     \<lparr>listeners = [], tx_queue = \<lparr>maxsize = 0, items = [Some (1::nat)]\<rparr>,
      threads_running = True, backend = []\<rparr> =
   Some \<lparr>listeners = [], tx_queue = \<lparr>maxsize = 0, items = [Some 1]\<rparr>,
         threads_running = True, backend = []\<rparr> \<and>
   tx_thread_body (\<lambda>m b. m # b)
     \<lparr>listeners = [], tx_queue = \<lparr>maxsize = 0, items = [Some (1::nat)]\<rparr>,
      threads_running = True, backend = []\<rparr> =
   \<lparr>listeners = [], tx_queue = \<lparr>maxsize = 0, items = []\<rparr>,
    threads_running = True, backend = [1]\<rparr>"
  using tx_thread_never_runs
          [of "\<lambda>m b. m # b"
              "\<lparr>listeners = [], tx_queue = \<lparr>maxsize = 0, items = [Some (1::nat)]\<rparr>,
                threads_running = True, backend = []\<rparr>"]
  by (simp add: tx_thread_body_def)

text \<open>
  Claim C7. When the first \<open>n\<close> attempts fail with the clock still inside the window of
  10000 ms and the next reading is outside it, the function makes exactly these \<open>n\<close>
  attempts and raises TimeoutError. When attempt \<open>k\<close> succeeds, after \<open>k\<close> failed ones, all
  with the clock inside the window, it returns without error.
\<close>

theorem connect_to_server_retries_until_timeout:
  "((\<forall>i<n. \<not> connect i \<and> time i * 1000 < time 0 * 1000 + 10000) \<and>
    \<not> time n * 1000 < time 0 * 1000 + 10000 \<longrightarrow>
      connect_to_server connect time = Some (Inl TimeoutError, n)) \<and>
   ((\<forall>i<k. \<not> connect i) \<and> (\<forall>i\<le>k. time i * 1000 < time 0 * 1000 + 10000) \<and> connect k \<longrightarrow>
      connect_to_server connect time = Some (Inr (), Suc k))"
  using connect_loop_timeout[of 0 n connect time "time 0 * 1000 + 10000"]
        connect_loop_success[of 0 k connect time "time 0 * 1000 + 10000"]
  by (simp add: connect_to_server_def Let_def)

text \<open>
  Claim C7 with a clock that advances four seconds for each attempt: three failed attempts
  and then TimeoutError; with the second attempt successful, a return after two.
\<close>

theorem connect_to_server_retries_until_timeout_witness:
  "connect_to_server (\<lambda>i. False) (\<lambda>i. 4 * real i) = Some (Inl TimeoutError, 3) \<and>
   connect_to_server (\<lambda>i. i = 1) (\<lambda>i. 4 * real i) = Some (Inr (), 2)"
proof -
  have a: "connect_to_server (\<lambda>i. False) (\<lambda>i. 4 * real i) = Some (Inl TimeoutError, 3)"
    using connect_to_server_retries_until_timeout[of 3 "\<lambda>i. False" "\<lambda>i. 4 * real i" 0] by simp
  have b: "connect_to_server (\<lambda>i. i = 1) (\<lambda>i. 4 * real i) = Some (Inr (), 2)"
    using connect_to_server_retries_until_timeout[of 0 "\<lambda>i. i = 1" "\<lambda>i. 4 * real i" 1] by (simp add: less_Suc_eq_le)
  from a b show ?thesis ..
qed

text \<open>
  Claim C10. \<^verbatim>\<open>shutdown\<close> leaves the listeners, the transmit queue and the backend as
  they are and clears the flag; a second \<^verbatim>\<open>shutdown\<close> changes nothing; and on the unbounded
  queue that the constructor makes, \<^verbatim>\<open>write\<close> after \<^verbatim>\<open>shutdown\<close> succeeds and appends the
  message to the queue.
\<close>

theorem shutdown_only_clears_event:
  "BusABC.listeners (shutdown self) = BusABC.listeners self \<and>
   BusABC.tx_queue (shutdown self) = BusABC.tx_queue self \<and>
   backend (shutdown self) = backend self \<and>
   \<not> threads_running (shutdown self) \<and>
   shutdown (shutdown self) = shutdown self \<and>
   (maxsize (BusABC.tx_queue self) \<le> 0 \<longrightarrow>
      BusABC_write msg (shutdown self) =
        Inr ((shutdown self)\<lparr>BusABC.tx_queue :=
               (BusABC.tx_queue self)\<lparr>items := items (BusABC.tx_queue self) @ [msg]\<rparr>\<rparr>))"
  by (simp add: shutdown_def BusABC_write_def put_nowait_def)

text \<open>Claim C10 at a new bus: \<^verbatim>\<open>write\<close> after \<^verbatim>\<open>shutdown\<close> queues the message.\<close>

theorem shutdown_only_clears_event_witness:
  "maxsize (BusABC.tx_queue (BusABC_init ())) \<le> 0 \<and>
   BusABC_write (Some (5::nat)) (shutdown (BusABC_init ())) =
     Inr \<lparr>listeners = [], tx_queue = \<lparr>maxsize = 0, items = [Some 5]\<rparr>, threads_running = False,
          backend = ()\<rparr>"
  using shutdown_only_clears_event[of "BusABC_init ()" "Some (5::nat)"]
  by (simp add: BusABC_init_def Queue_init_def shutdown_def)

text \<open>
  Claim C8 as stated fails: a call that supplies a timeout, here of 2 seconds on an empty
  buffer, raises TypeError.
\<close>

theorem get_message_takes_no_timeout:
  "get_message [2] (BufferedReader_init :: nat BufferedReader) Never = (Inl TypeError, BufferedReader_init, 0)"
  by (simp add: get_message_def)

text \<open>
  Claim C8, as amended. Called as the source defines it, without a timeout,
  \<^verbatim>\<open>get_message\<close> never raises and blocks the caller for at most 0.5 seconds; when the
  buffer is empty and nothing arrives within 0.5 seconds, it returns \<^verbatim>\<open>None\<close> after
  0.5 seconds; a message that arrives earlier, or that is already buffered, is returned.
\<close>

theorem get_message_fixed_timeout:
  "\<not> isl (fst (get_message [] self env)) \<and>
   0 \<le> snd (snd (get_message [] self env)) \<and> snd (snd (get_message [] self env)) \<le> 0.5 \<and>
   (items (buffer self) = [] \<and> (env = Never \<or> (\<exists>d m. env = Arrives d m \<and> 0.5 \<le> d)) \<longrightarrow>
      get_message [] self env = (Inr None, self, 0.5)) \<and>
   (items (buffer self) = [] \<and> env = Arrives d m \<and> d < 0.5 \<longrightarrow>
      get_message [] self env = (Inr (Some m), self, max 0 d)) \<and>
   (items (buffer self) = m # ms \<longrightarrow>
      get_message [] self env = (Inr (Some m), self\<lparr>buffer := (buffer self)\<lparr>items := ms\<rparr>\<rparr>, 0))"
  by (cases env; cases "items (buffer self)")
     (auto simp: get_message_def get_timeout_def)

text \<open>
  Claim C8 as amended, on an empty buffer with no arrival, with an arrival after a quarter
  of a second, and on a buffer with two messages.
\<close>

theorem get_message_fixed_timeout_witness:
  "get_message [] (BufferedReader_init :: nat BufferedReader) Never = (Inr None, BufferedReader_init, 0.5) \<and>
   get_message [] (BufferedReader_init :: nat BufferedReader) (Arrives 0.25 7) =
     (Inr (Some 7), BufferedReader_init, 0.25) \<and>
   get_message [] \<lparr>buffer = \<lparr>maxsize = 0, items = [3::nat, 4]\<rparr>\<rparr> Never =
     (Inr (Some 3), \<lparr>buffer = \<lparr>maxsize = 0, items = [4]\<rparr>\<rparr>, 0)"
  using get_message_fixed_timeout[of "BufferedReader_init :: nat BufferedReader" Never]
        get_message_fixed_timeout[of "BufferedReader_init :: nat BufferedReader" "Arrives 0.25 7" "0.25" 7]
        get_message_fixed_timeout[of "\<lparr>buffer = \<lparr>maxsize = 0, items = [3::nat, 4]\<rparr>\<rparr>" Never _ 3 "[4]"]
  by (simp add: BufferedReader_init_def Queue_init_def)

section \<open>The daemon codec: encoding, decoding and their round trip\<close>

lemma hex_table_iff: "hex_table dg = (\<forall>d<16. digit_value (dg d) = d)"
  by (auto simp: hex_table_def list_all_iff)

lemma hex_table_upper: "hex_table digit_upper"
  unfolding hex_table_iff
proof (intro allI impI)
  fix d :: nat assume "d < 16"
  then have "d \<in> {0,1,2,3,4,5,6,7,8,9,10,11,12,13,14,15}" by (simp; presburger)
  then show "digit_value (digit_upper d) = d"
    by (auto simp: digit_value_def digit_upper_def)
qed

lemma hex_table_lower: "hex_table digit_lower"
  unfolding hex_table_iff
proof (intro allI impI)
  fix d :: nat assume "d < 16"
  then have "d \<in> {0,1,2,3,4,5,6,7,8,9,10,11,12,13,14,15}" by (simp; presburger)
  then show "digit_value (digit_lower d) = d"
    by (auto simp: digit_value_def digit_lower_def)
qed

lemma digit_not_special:
  assumes "digit_value c < 16"
  shows "c \<noteq> CHR '' ''" "c \<noteq> CHR ''_''" "c \<noteq> CHR ''-''" "c \<noteq> CHR ''+''"
        "c \<noteq> CHR ''x''" "c \<noteq> CHR ''X''" "\<not> py_isspace c" "int_body_char c"
  using assms by (auto simp: digit_value_def py_isspace_def int_body_char_def Let_def split: if_splits)

lemma to_hex_digits:
  "hex_table dg \<Longrightarrow> c \<in> set (to_hex dg n) \<Longrightarrow> digit_value c < 16"
proof (induction dg n rule: to_hex.induct)
  case (1 dg n)
  then show ?case
    by (subst (asm) (2) to_hex.simps) (auto simp: hex_table_iff split: if_splits)
qed

lemma to_hex_nonempty: "to_hex dg n \<noteq> []"
  by (subst to_hex.simps) simp

lemma to_hex_value:
  "hex_table dg \<Longrightarrow> foldl (\<lambda>a c. 16 * a + digit_value c) 0 (to_hex dg n) = n"
proof (induction dg n rule: to_hex.induct)
  case (1 dg n)
  show ?case
  proof (cases "n < 16")
    case True
    with 1(2) show ?thesis by (subst to_hex.simps) (simp add: hex_table_iff)
  next
    case False
    with 1 show ?thesis by (subst to_hex.simps) (simp add: hex_table_iff)
  qed
qed

lemma no_double_underscore: "CHR ''_'' \<notin> set h \<Longrightarrow> \<not> double_underscore h"
  by (induction h rule: double_underscore.induct) auto

lemma digits16_digits:
  assumes ne: "h \<noteq> []" and dig: "\<forall>c\<in>set h. digit_value c < 16"
  shows "digits16 h = Some (foldl (\<lambda>a c. 16 * a + digit_value c) 0 h)"
proof -
  have body: "takeWhile int_body_char h = h" "dropWhile int_body_char h = []"
    using dig digit_not_special(8) by auto
  have us: "CHR ''_'' \<notin> set h" using dig digit_not_special(2) by blast
  have filt: "filter (\<lambda>c. c \<noteq> CHR ''_'') h = h" using us by (auto simp: filter_id_conv)
  have hd: "hd h \<noteq> CHR ''_''" "last h \<noteq> CHR ''_''"
    using us ne by (metis hd_in_set, metis last_in_set)
  show ?thesis
    unfolding digits16_def body
    using filt hd no_double_underscore[OF us] ne by simp
qed

lemma strip_0x_digits:
  assumes dig: "\<forall>c\<in>set h. digit_value c < 16"
  shows "strip_0x h = h"
  using dig digit_not_special(5,6) by (auto simp: strip_0x_def split: list.splits)

lemma strip_sign_digits:
  assumes ne: "h \<noteq> []" and dig: "\<forall>c\<in>set h. digit_value c < 16"
  shows "strip_sign h = (False, h)"
proof -
  from ne obtain c r where h: "h = c # r" by (cases h) auto
  have c: "digit_value c < 16" using dig h by simp
  show ?thesis using digit_not_special(3,4)[OF c] by (simp add: strip_sign_def h)
qed

lemma int16_digits:
  assumes ne: "h \<noteq> []" and dig: "\<forall>c\<in>set h. digit_value c < 16"
  shows "int16 h = Some (int (foldl (\<lambda>a c. 16 * a + digit_value c) 0 h))"
    and "int16 (CHR ''-'' # h) = Some (- int (foldl (\<lambda>a c. 16 * a + digit_value c) 0 h))"
proof -
  from ne obtain c r where h: "h = c # r" by (cases h) auto
  have c: "digit_value c < 16" using dig h by simp
  have nosp: "dropWhile py_isspace h = h"
    using digit_not_special(7)[OF c] h by simp
  have minus: "dropWhile py_isspace (CHR ''-'' # h) = CHR ''-'' # h"
    by (simp add: py_isspace_def)
  show "int16 h = Some (int (foldl (\<lambda>a c. 16 * a + digit_value c) 0 h))"
    unfolding int16_def nosp
    by (simp add: strip_sign_digits[OF ne dig] strip_0x_digits[OF dig] digits16_digits[OF ne dig])
  show "int16 (CHR ''-'' # h) = Some (- int (foldl (\<lambda>a c. 16 * a + digit_value c) 0 h))"
    unfolding int16_def minus
    by (simp add: strip_sign_def strip_0x_digits[OF dig] digits16_digits[OF ne dig])
qed

lemma int16_format_hex: "hex_table dg \<Longrightarrow> int16 (format_hex dg n) = Some n"
  using int16_digits[OF to_hex_nonempty, of dg] to_hex_digits[of dg]
  by (auto simp: format_hex_def to_hex_value)

lemma startswith_append [simp]: "startswith (p @ x) p"
  by (simp add: startswith_def)

lemma endswith_append [simp]: "endswith (x @ p) p"
  by (simp add: endswith_def)

lemma removeprefix_append [simp]: "removeprefix (p @ x) p = x"
  by (simp add: removeprefix_def)

lemma removesuffix_append [simp]: "p \<noteq> [] \<Longrightarrow> removesuffix (x @ p) p = x"
  by (simp add: removesuffix_def)

lemma fields_nonempty: "space_fields s \<noteq> []"
  by (induction s) (auto split: list.splits)

lemma fields_nospace: "CHR '' '' \<notin> set a \<Longrightarrow> space_fields a = [a]"
  by (induction a) auto

lemma fields_append: "CHR '' '' \<notin> set a \<Longrightarrow> space_fields (a @ CHR '' '' # r) = a # space_fields r"
  by (induction a) auto

lemma fields_join:
  "toks \<noteq> [] \<Longrightarrow> \<forall>t\<in>set toks. CHR '' '' \<notin> set t \<Longrightarrow> space_fields (str_join '' '' toks) = toks"
proof (induction "'' ''" toks rule: str_join.induct)
  case 1
  then show ?case by simp
next
  case (2 x)
  then show ?case by (simp add: fields_nospace)
next
  case (3 x y ys)
  then show ?case using fields_append[of x "str_join '' '' (y # ys)"] by simp
qed

lemma str_split_nosep: "c \<notin> set s \<Longrightarrow> str_split c n s = [s]"
  by (cases n) auto

lemma takeWhile_until: "c \<notin> set a \<Longrightarrow> takeWhile (\<lambda>x. x \<noteq> c) (a @ c # r) = a"
  by (induction a) auto

lemma dropWhile_until: "c \<notin> set a \<Longrightarrow> dropWhile (\<lambda>x. x \<noteq> c) (a @ c # r) = c # r"
  by (induction a) auto

lemma str_split_append:
  "c \<notin> set a \<Longrightarrow> str_split c (Suc n) (a @ c # r) = a # str_split c n r"
  by (simp add: takeWhile_until dropWhile_until)

lemma pad2_byte:
  fixes b :: byte
  assumes "hex_table dg" "dg 0 = CHR ''0''"
  shows "pad2 (format_hex dg (uint b)) = [dg (unat b div 16), dg (unat b mod 16)]"
proof -
  have k: "unat b < 256" using unsigned_less[of b, where ?'a = nat] by simp
  have f: "format_hex dg (uint b) = to_hex dg (unat b)"
    by (simp add: format_hex_def)
  show ?thesis
  proof (cases "unat b < 16")
    case True
    then show ?thesis using assms(2) by (simp add: f to_hex.simps[of dg "unat b"] pad2_def)
  next
    case False
    moreover have "unat b div 16 < 16" using k by simp
    ultimately show ?thesis
      by (simp add: f to_hex.simps[of dg "unat b"] to_hex.simps[of dg "unat b div 16"] pad2_def)
  qed
qed

lemma fromhex_bytes:
  assumes "hex_table dg" "dg 0 = CHR ''0''"
  shows "fromhex (concat (map (\<lambda>b. pad2 (format_hex dg (uint b))) bs)) = Some bs"
proof (induction bs)
  case Nil
  then show ?case by simp
next
  case (Cons b bs)
  have hi: "unat b div 16 < 16" using unsigned_less[of b, where ?'a = nat] by simp
  have lo: "unat b mod 16 < 16" by simp
  have dv: "digit_value (dg (unat b div 16)) = unat b div 16"
           "digit_value (dg (unat b mod 16)) = unat b mod 16"
    using assms(1) hi lo by (auto simp: hex_table_iff)
  have sp: "\<not> py_isspace (dg (unat b div 16))"
    using digit_not_special(7)[of "dg (unat b div 16)"] dv hi by simp
  show ?case
    using Cons.IH sp hi by (simp add: pad2_byte[OF assms] dv)
qed

lemma slice_to_nonneg: "0 \<le> n \<Longrightarrow> slice_to xs n = take (nat n) xs"
  by (simp add: slice_to_def)

lemma to_hex_leading:
  "0 < n \<Longrightarrow> \<exists>d. 0 < d \<and> d < 16 \<and> hd (to_hex dg n) = dg d"
proof (induction dg n rule: to_hex.induct)
  case (1 dg n)
  show ?case
  proof (cases "n < 16")
    case True
    with 1(2) show ?thesis by (subst to_hex.simps) auto
  next
    case False
    then have "0 < n div 16" by simp
    with 1(1) False obtain d where "0 < d" "d < 16" "hd (to_hex dg (n div 16)) = dg d" by auto
    then show ?thesis using False to_hex_nonempty[of dg "n div 16"]
      by (subst to_hex.simps) auto
  qed
qed

lemma to_hex_in_table:
  "c \<in> set (to_hex dg n) \<Longrightarrow> \<exists>d<16. c = dg d"
proof (induction dg n rule: to_hex.induct)
  case (1 dg n)
  show ?case
  proof (cases "n < 16")
    case True
    with 1(2) show ?thesis by (subst (asm) to_hex.simps) auto
  next
    case False
    have m: "n mod 16 < 16" by simp
    from 1(2) False have "c \<in> set (to_hex dg (n div 16)) \<or> c = dg (n mod 16)"
      by (subst (asm) to_hex.simps) auto
    then show ?thesis using 1(1)[OF False] m by blast
  qed
qed

lemma unpadded_hex_to_hex:
  assumes tab: "hex_table dg" and z: "dg 0 = CHR ''0''" and al: "\<forall>d<16. dg d \<in> set alphabet"
  shows "unpadded_hex alphabet (to_hex dg n) n"
proof -
  have lead: "hd (to_hex dg n) = CHR ''0'' \<longrightarrow> to_hex dg n = ''0''"
  proof (cases "n = 0")
    case True
    then show ?thesis using z by (simp add: to_hex.simps[of dg 0])
  next
    case False
    then obtain d where d: "0 < d" "d < 16" "hd (to_hex dg n) = dg d"
      using to_hex_leading[of n dg] by auto
    have "digit_value (dg d) = d" "digit_value (dg 0) = 0" using tab d by (auto simp: hex_table_iff)
    then have "dg d \<noteq> CHR ''0''" using d(1) z by auto
    then show ?thesis using d(3) by simp
  qed
  have sub: "set (to_hex dg n) \<subseteq> set alphabet" using to_hex_in_table[of _ dg n] al by blast
  show ?thesis
    unfolding unpadded_hex_def using lead sub to_hex_nonempty to_hex_value[OF tab] by simp
qed

lemma upper_alphabet: "\<forall>d<16. digit_upper d \<in> set ''0123456789ABCDEF''"
proof (intro allI impI)
  fix d :: nat assume "d < 16"
  then have "d < length ''0123456789ABCDEF''" by simp
  then show "digit_upper d \<in> set ''0123456789ABCDEF''"
    unfolding digit_upper_def by (rule nth_mem)
qed

lemma lower_alphabet: "\<forall>d<16. digit_lower d \<in> set ''0123456789abcdef''"
proof (intro allI impI)
  fix d :: nat assume "d < 16"
  then have "d < length ''0123456789abcdef''" by simp
  then show "digit_lower d \<in> set ''0123456789abcdef''"
    unfolding digit_lower_def by (rule nth_mem)
qed

lemma format_hex_nospace: "hex_table dg \<Longrightarrow> CHR '' '' \<notin> set (format_hex dg n)"
  using to_hex_digits[of dg "CHR '' ''"] digit_not_special(1)[of "CHR '' ''"]
  by (auto simp: format_hex_def)

lemma format_hex_nonempty: "format_hex dg n \<noteq> []"
  by (simp add: format_hex_def to_hex_nonempty)

lemma pad2_nospace:
  fixes b :: byte
  assumes "hex_table dg" "dg 0 = CHR ''0''"
  shows "CHR '' '' \<notin> set (pad2 (format_hex dg (uint b)))"
proof -
  have "unat b div 16 < 16" using unsigned_less[of b, where ?'a = nat] by simp
  then have "digit_value (dg (unat b div 16)) < 16" "digit_value (dg (unat b mod 16)) < 16"
    using assms(1) by (auto simp: hex_table_iff)
  then have "dg (unat b div 16) \<noteq> CHR '' ''" "dg (unat b mod 16) \<noteq> CHR '' ''"
    using digit_not_special(1) by blast+
  then show ?thesis
    by (auto simp: pad2_byte[OF assms])
qed

lemma wrap_startswith: "startswith (p @ x @ q) p"
  by (simp add: startswith_def)

lemma wrap_endswith: "endswith (p @ x @ q) q"
  by (simp add: endswith_def)

lemma wrap_strip: "q \<noteq> [] \<Longrightarrow> removesuffix (removeprefix (p @ x @ q) p) q = x"
  by (simp add: removeprefix_def removesuffix_def startswith_def endswith_def)

lemma inbound_equivalent_wrap:
  "inbound_equivalent ts (''< send '' @ x @ '' >'') =
     (if length (space_fields x) < 2 then None
      else Some (''< frame '' @ space_fields x ! 0 @ '' '' @ ts @ '' '' @
                 concat (map pad2 (filter (\<lambda>f. f \<noteq> []) (drop 2 (space_fields x)))) @ '' >''))"
proof -
  have q: "'' >'' \<noteq> []" by simp
  show ?thesis
    unfolding inbound_equivalent_def
    by (simp only: wrap_startswith wrap_endswith wrap_strip[OF q] simp_thms if_True Let_def)
qed

lemma digit_lower_0: "digit_lower 0 = CHR ''0''"
  by (simp add: digit_lower_def)

lemma digit_upper_0: "digit_upper 0 = CHR ''0''"
  by (simp add: digit_upper_def)

lemma nonempty_fields_join:
  assumes "\<forall>t\<in>set toks. t \<noteq> [] \<and> CHR '' '' \<notin> set t"
  shows "filter (\<lambda>f. f \<noteq> []) (space_fields (str_join '' '' toks)) = toks"
proof (cases toks)
  case Nil
  then show ?thesis by simp
next
  case (Cons t ts)
  then have "space_fields (str_join '' '' toks) = toks"
    using assms fields_join[of toks] by auto
  then show ?thesis using assms by (auto simp: filter_id_conv)
qed

lemma inbound_equivalent_encoded:
  fixes m :: "'f can_message"
  assumes len: "dlc m = int (length (data m))"
  shows "inbound_equivalent ts (convert_can_message_to_ascii_message m) =
           Some (''< frame '' @ format_X (arbitration_id m) @ '' '' @ ts @ '' '' @
                 concat (map (\<lambda>b. pad2 (format_x (uint b))) (data m)) @ '' >'')"
proof -
  let ?I = "format_X (arbitration_id m)"
  let ?L = "format_X (dlc m)"
  let ?toks = "map (\<lambda>x. format_x (uint x)) (data m)"
  let ?J = "str_join '' '' ?toks"
  have sl: "slice_to (data m) (dlc m) = data m" using len by (simp add: slice_to_def)
  have enc: "convert_can_message_to_ascii_message m
               = ''< send '' @ (?I @ CHR '' '' # ?L @ CHR '' '' # ?J) @ '' >''"
    by (simp add: convert_can_message_to_ascii_message_def sl Let_def)
  have nsI: "CHR '' '' \<notin> set ?I" and nsL: "CHR '' '' \<notin> set ?L"
    by (simp_all add: format_X_def format_hex_nospace hex_table_upper)
  have toks: "\<forall>t\<in>set ?toks. t \<noteq> [] \<and> CHR '' '' \<notin> set t"
    by (auto simp: format_x_def format_hex_nonempty dest: format_hex_nospace[OF hex_table_lower, THEN notE])
  have fs: "space_fields (?I @ CHR '' '' # ?L @ CHR '' '' # ?J) = ?I # ?L # space_fields ?J"
    by (simp add: fields_append nsI nsL)
  show ?thesis
    unfolding enc inbound_equivalent_wrap fs
    using nonempty_fields_join[OF toks]
    by (simp add: comp_def)
qed

lemma decode_wrap:
  "convert_ascii_message_to_can_message validate float (''< frame '' @ x @ '' >'') =
     (let parts = str_split (CHR '' '') 3 x
      in (case int16 (parts ! 0) of
            None \<Rightarrow> Inl ValueError
          | Some can_id \<Rightarrow>
              if length parts \<le> 1 then Inl IndexError
              else (case float (parts ! 1) of
                      None \<Rightarrow> Inl ValueError
                    | Some ts \<Rightarrow>
                        if length parts \<le> 2 then Inl IndexError
                        else (case fromhex (parts ! 2) of
                                None \<Rightarrow> Inl ValueError
                              | Some bs \<Rightarrow>
                                  (case can_Message validate ts can_id bs (int (length bs)) of
                                     Inl e \<Rightarrow> Inl e
                                   | Inr can_message \<Rightarrow> Inr (Some can_message))))))"
proof -
  have q: "'' >'' \<noteq> []" by simp
  show ?thesis
    unfolding convert_ascii_message_to_can_message_def
    by (simp only: wrap_startswith wrap_endswith wrap_strip[OF q] simp_thms if_False Let_def)
qed

lemma decode_three_fields:
  assumes "CHR '' '' \<notin> set a" "CHR '' '' \<notin> set b" "CHR '' '' \<notin> set c"
      and "int16 a = Some i" "float b = Some t" "fromhex c = Some bs"
      and "validate t i bs (int (length bs)) = None"
  shows "convert_ascii_message_to_can_message validate float
           (''< frame '' @ a @ '' '' @ b @ '' '' @ c @ '' >'') =
         Inr (Some \<lparr>timestamp = t, arbitration_id = i, data = bs, dlc = int (length bs)\<rparr>)"
proof -
  have sp: "str_split (CHR '' '') 3 (a @ CHR '' '' # b @ CHR '' '' # c) = [a, b, c]"
  proof -
    have "str_split (CHR '' '') (Suc (Suc (Suc 0))) (a @ CHR '' '' # b @ CHR '' '' # c)
            = a # str_split (CHR '' '') (Suc (Suc 0)) (b @ CHR '' '' # c)"
      using assms(1) by (rule str_split_append)
    also have "str_split (CHR '' '') (Suc (Suc 0)) (b @ CHR '' '' # c)
            = b # str_split (CHR '' '') (Suc 0) c"
      using assms(2) by (rule str_split_append)
    also have "str_split (CHR '' '') (Suc 0) c = [c]"
      using assms(3) by (rule str_split_nosep)
    finally show ?thesis by (simp only: numeral_3_eq_3)
  qed
  have "convert_ascii_message_to_can_message validate float
          (''< frame '' @ (a @ CHR '' '' # b @ CHR '' '' # c) @ '' >'')
        = Inr (Some \<lparr>timestamp = t, arbitration_id = i, data = bs, dlc = int (length bs)\<rparr>)"
    unfolding decode_wrap sp using assms(4-7) by (simp add: can_Message_def)
  then show ?thesis by simp
qed

text \<open>
  Claim C1. A message whose dlc is the length of its payload is encoded to the outbound
  line; the inbound line with the same id field and the payload as contiguous hex, under
  any timestamp text \<open>ts\<close> without a space that \<^verbatim>\<open>float\<close> accepts, decodes to a message with
  the same arbitration id, the same payload bytes and the same dlc, when the constructor
  accepts these fields under the decoded timestamp. Only the timestamp is the decoder's
  own.
\<close>

theorem roundtrip_id_and_payload:
  fixes m :: "'f can_message"
  assumes "dlc m = int (length (data m))"
      and "float ts = Some t" and "CHR '' '' \<notin> set ts"
      and "validate t (arbitration_id m) (data m) (dlc m) = None"
  shows "\<exists>line. inbound_equivalent ts (convert_can_message_to_ascii_message m) = Some line \<and>
           convert_ascii_message_to_can_message validate float line =
             Inr (Some \<lparr>timestamp = t, arbitration_id = arbitration_id m,
                        data = data m, dlc = dlc m\<rparr>)"
proof -
  let ?H = "concat (map (\<lambda>b. pad2 (format_x (uint b))) (data m))"
  have nsH: "CHR '' '' \<notin> set ?H"
    using pad2_nospace[OF hex_table_lower digit_lower_0] by (auto simp: format_x_def)
  have nsI: "CHR '' '' \<notin> set (format_X (arbitration_id m))"
    by (simp add: format_X_def format_hex_nospace hex_table_upper)
  have i: "int16 (format_X (arbitration_id m)) = Some (arbitration_id m)"
    by (simp add: format_X_def int16_format_hex hex_table_upper)
  have h: "fromhex ?H = Some (data m)"
    using fromhex_bytes[OF hex_table_lower digit_lower_0] by (simp add: format_x_def)
  show ?thesis
    unfolding inbound_equivalent_encoded[OF assms(1)]
    using decode_three_fields[where float = float and validate = validate,
            OF nsI assms(3) nsH i assms(2) h] assms(1) assms(4)
    by simp
qed

text \<open>
  Claim C1 at the message with id 26 and payload \<^verbatim>\<open>0a 1b\<close>, under a constructor that
  checks the ranges of the specification: it is encoded to \<^verbatim>\<open>< send 1A 2 a 1b >\<close>, and
  \<^verbatim>\<open>< frame 1A 12.3 0a1b >\<close> decodes to its id and payload.
\<close>

theorem roundtrip_id_and_payload_witness:
  "convert_can_message_to_ascii_message
     \<lparr>timestamp = (0::nat), arbitration_id = 26, data = [10, 27], dlc = 2\<rparr> = ''< send 1A 2 a 1b >'' \<and>
   inbound_equivalent ''12.3'' ''< send 1A 2 a 1b >'' = Some ''< frame 1A 12.3 0a1b >'' \<and>
   frame_ranges (7::nat) 26 [10, 27] 2 = None \<and>
   convert_ascii_message_to_can_message frame_ranges
     (\<lambda>s. if s = ''12.3'' then Some (7::nat) else None) ''< frame 1A 12.3 0a1b >'' =
       Inr (Some \<lparr>timestamp = 7, arbitration_id = 26, data = [10, 27], dlc = 2\<rparr>)"
proof -
  let ?m = "\<lparr>timestamp = (0::nat), arbitration_id = 26, data = [10, 27], dlc = 2\<rparr>"
  let ?f = "\<lambda>s. if s = ''12.3'' then Some (7::nat) else None"
  have enc: "convert_can_message_to_ascii_message ?m = ''< send 1A 2 a 1b >''"
    by (simp add: convert_can_message_to_ascii_message_def slice_to_def format_X_def format_x_def
          format_hex_def to_hex.simps digit_upper_def digit_lower_def)
  have inb: "inbound_equivalent ''12.3'' ''< send 1A 2 a 1b >'' = Some ''< frame 1A 12.3 0a1b >''"
    by (simp add: inbound_equivalent_def startswith_def endswith_def removeprefix_def
          removesuffix_def pad2_def)
  have v: "frame_ranges (7::nat) 26 [10, 27] 2 = None"
    by (simp add: frame_ranges_def)
  have "\<exists>line. inbound_equivalent ''12.3'' (convert_can_message_to_ascii_message ?m) = Some line \<and>
          convert_ascii_message_to_can_message frame_ranges ?f line =
            Inr (Some \<lparr>timestamp = 7, arbitration_id = arbitration_id ?m, data = data ?m, dlc = dlc ?m\<rparr>)"
    using roundtrip_id_and_payload[of ?m ?f "''12.3''" 7 frame_ranges] v by simp
  then show ?thesis unfolding enc inb using enc inb v by simp
qed

lemmas codec_eval =
  convert_ascii_message_to_can_message_def startswith_def endswith_def removeprefix_def
  removesuffix_def int16_def strip_sign_def strip_0x_def digits16_def int_body_char_def
  digit_value_def py_isspace_def Let_def numeral_3_eq_3

text \<open>
  Claim C3. For a message with a dlc that is not negative, the encoder returns exactly
  \<^verbatim>\<open>< send \<close>, the id, a space, the dlc, a space, the first dlc bytes of the payload joined by
  single spaces, and \<^verbatim>\<open> >\<close>. The id (when it is not negative) and the dlc are unpadded
  numerals over the upper-case hex digits, and every byte is one over the lower-case ones.
\<close>

theorem outbound_encoding_exact:
  fixes m :: "'f can_message"
  assumes "0 \<le> dlc m"
  shows "convert_can_message_to_ascii_message m =
           ''< send '' @ format_X (arbitration_id m) @ '' '' @ format_X (dlc m) @ '' '' @
           str_join '' '' (map (\<lambda>b. format_x (uint b)) (take (nat (dlc m)) (data m))) @ '' >''
         \<and> (0 \<le> arbitration_id m \<longrightarrow>
              unpadded_hex ''0123456789ABCDEF'' (format_X (arbitration_id m)) (nat (arbitration_id m)))
         \<and> unpadded_hex ''0123456789ABCDEF'' (format_X (dlc m)) (nat (dlc m))
         \<and> list_all (\<lambda>b. unpadded_hex ''0123456789abcdef'' (format_x (uint b)) (unat b)) (data m)"
proof -
  have up: "\<And>n. unpadded_hex ''0123456789ABCDEF'' (to_hex digit_upper n) n"
    by (rule unpadded_hex_to_hex[OF hex_table_upper digit_upper_0 upper_alphabet])
  have lo: "\<And>n. unpadded_hex ''0123456789abcdef'' (to_hex digit_lower n) n"
    by (rule unpadded_hex_to_hex[OF hex_table_lower digit_lower_0 lower_alphabet])
  have 1: "convert_can_message_to_ascii_message m =
           ''< send '' @ format_X (arbitration_id m) @ '' '' @ format_X (dlc m) @ '' '' @
           str_join '' '' (map (\<lambda>b. format_x (uint b)) (take (nat (dlc m)) (data m))) @ '' >''"
    using assms by (simp add: convert_can_message_to_ascii_message_def slice_to_nonneg Let_def)
  have 2: "0 \<le> arbitration_id m \<longrightarrow>
              unpadded_hex ''0123456789ABCDEF'' (format_X (arbitration_id m)) (nat (arbitration_id m))"
    using up by (simp add: format_X_def format_hex_def)
  have 3: "unpadded_hex ''0123456789ABCDEF'' (format_X (dlc m)) (nat (dlc m))"
    using up assms by (simp add: format_X_def format_hex_def)
  have 4: "list_all (\<lambda>b. unpadded_hex ''0123456789abcdef'' (format_x (uint b)) (unat b)) (data m)"
    using lo by (simp add: format_x_def format_hex_def list_all_iff)
  from 1 2 3 4 show ?thesis by blast
qed

text \<open>Claim C3 at a message with three bytes and a dlc of 2: the third byte is not sent.\<close>

theorem outbound_encoding_exact_witness:
  "(0::int) \<le> dlc \<lparr>timestamp = (0::nat), arbitration_id = 26, data = [10, 27, 255], dlc = 2\<rparr> \<and>
   convert_can_message_to_ascii_message
     \<lparr>timestamp = (0::nat), arbitration_id = 26, data = [10, 27, 255], dlc = 2\<rparr> = ''< send 1A 2 a 1b >''"
  using outbound_encoding_exact[of "\<lparr>timestamp = (0::nat), arbitration_id = 26, data = [10, 27, 255], dlc = 2\<rparr>"]
  by (simp add: format_X_def format_x_def format_hex_def to_hex.simps digit_upper_def digit_lower_def)

lemma decode_outside_envelope:
  "\<not> startswith s ''< frame '' \<or> \<not> endswith s '' >'' \<Longrightarrow>
   convert_ascii_message_to_can_message validate float s = Inr None"
  by (simp add: convert_ascii_message_to_can_message_def)

text \<open>
  Claim C4. The two lines the claim names fail the envelope test and decode to \<^verbatim>\<open>None\<close>.
  The line \<^verbatim>\<open>< frame garbage >\<close> is malformed too, but it passes the envelope test, and the
  decoder raises ValueError on it.
\<close>

theorem decoder_raises_on_malformed_interior:
  "convert_ascii_message_to_can_message validate float ''garbage'' = Inr None \<and>
   convert_ascii_message_to_can_message validate float ''< frame 1A 12.3 0a'' = Inr None \<and>
   convert_ascii_message_to_can_message validate float ''< frame garbage >'' = Inl ValueError"
  by (simp add: codec_eval)

text \<open>
  The failing line of claim C4, under a \<^verbatim>\<open>float\<close> that accepts \<^verbatim>\<open>12.3\<close> only and a
  constructor that checks the ranges of the specification.
\<close>

theorem decoder_raises_on_malformed_interior_witness:
  "convert_ascii_message_to_can_message frame_ranges
     (\<lambda>s. if s = ''12.3'' then Some (7::nat) else None) ''< frame garbage >'' = Inl ValueError"
  using decoder_raises_on_malformed_interior
          [of frame_ranges "\<lambda>s. if s = ''12.3'' then Some (7::nat) else None"]
  by simp



end
